theory Spec2Isabelle
  imports Complex_Main "HOL-Library.Sublist" "HOL-Library.Log_Nat"
begin

section \<open>Hardware tier\<close>

text \<open>
  \<^verbatim>\<open>calculateHardwareTier(overallScore)\<close> of the hardware detector.  The argument is the
  result of \<^verbatim>\<open>Math.round\<close>, an integer.
\<close>

datatype tier = HIGH | MEDIUM | LOW | VERY_LOW

definition calculateHardwareTier :: "int \<Rightarrow> tier" where
  "calculateHardwareTier overallScore =
     (if overallScore \<ge> 80 then HIGH
      else if overallScore \<ge> 60 then MEDIUM
      else if overallScore \<ge> 40 then LOW
      else VERY_LOW)"

section \<open>Strings\<close>

text \<open>
  Strings are byte strings.  \<^verbatim>\<open>toLowerCase\<close> is modelled on ASCII (the letters A..Z are
  shifted by 32, every other byte is kept), \<^verbatim>\<open>s.includes(t)\<close> is the test for a contiguous
  substring.
\<close>

definition toLowerChar :: "char \<Rightarrow> char" where
  "toLowerChar c =
     (let n = (of_char c :: nat) in if 65 \<le> n \<and> n \<le> 90 then char_of (n + 32) else c)"

definition toLowerCase :: "string \<Rightarrow> string" where
  "toLowerCase s = map toLowerChar s"

fun str_includes :: "string \<Rightarrow> string \<Rightarrow> bool" where
  "str_includes [] t = (t = [])"
| "str_includes (c # cs) t = (prefix t (c # cs) \<or> str_includes cs t)"

section \<open>GPU type classification\<close>

datatype gpu_type = dedicated | integrated | apple_unified

text \<open>
  \<^verbatim>\<open>determineGPUType(model, vendor)\<close>.  An argument that is \<^verbatim>\<open>undefined\<close> or \<^verbatim>\<open>null\<close> is
  \<open>None\<close>; \<^verbatim>\<open>!model\<close> holds for \<open>None\<close> and for the empty string, \<^verbatim>\<open>vendor || ''\<close> reads
  \<open>None\<close> as the empty string.
\<close>

definition or_empty :: "string option \<Rightarrow> string" where
  "or_empty s = (case s of None \<Rightarrow> [] | Some t \<Rightarrow> t)"

definition determineGPUType :: "string option \<Rightarrow> string option \<Rightarrow> gpu_type" where
  "determineGPUType model vendor =
     (if or_empty model = [] then integrated
      else let modelLower = toLowerCase (or_empty model);
               vendorLower = toLowerCase (or_empty vendor)
      in if str_includes modelLower ''geforce'' \<or> str_includes modelLower ''rtx''
            \<or> str_includes modelLower ''gtx'' \<or> str_includes modelLower ''quadro'' then dedicated
         else if str_includes vendorLower ''nvidia'' \<and> \<not> str_includes modelLower ''integrated''
           then dedicated
         else if str_includes modelLower ''radeon'' \<and> \<not> str_includes modelLower ''graphics''
           then dedicated
         else if str_includes modelLower ''rx '' \<or> str_includes modelLower ''vega'' then dedicated
         else if str_includes vendorLower ''amd'' \<and> \<not> str_includes modelLower ''integrated''
           then dedicated
         else if str_includes modelLower ''arc'' then dedicated
         else if str_includes modelLower ''apple'' \<or> str_includes modelLower ''m1''
            \<or> str_includes modelLower ''m2'' \<or> str_includes modelLower ''m3'' then apple_unified
         else integrated)"

text \<open>
  The classification as the specification words it: the Apple rule (a) first, on the model
  or the vendor, then the dedicated rules (b), (c), (d), then the default (e).
\<close>

definition apple_tokens :: "string \<Rightarrow> bool" where
  "apple_tokens s = (str_includes s ''apple'' \<or> str_includes s ''m1'' \<or> str_includes s ''m2''
     \<or> str_includes s ''m3'')"

definition nvidia_rule :: "string \<Rightarrow> string \<Rightarrow> bool" where
  "nvidia_rule m v = (str_includes m ''geforce'' \<or> str_includes m ''rtx'' \<or> str_includes m ''gtx''
     \<or> str_includes m ''quadro'' \<or> (str_includes v ''nvidia'' \<and> \<not> str_includes m ''integrated''))"

definition amd_rule :: "string \<Rightarrow> string \<Rightarrow> bool" where
  "amd_rule m v = ((str_includes m ''radeon'' \<and> \<not> str_includes m ''graphics'')
     \<or> str_includes m ''rx '' \<or> str_includes m ''vega''
     \<or> (str_includes v ''amd'' \<and> \<not> str_includes m ''integrated''))"

definition arc_rule :: "string \<Rightarrow> bool" where
  "arc_rule m = str_includes m ''arc''"

definition spec_determineGPUType :: "string \<Rightarrow> string \<Rightarrow> gpu_type" where
  "spec_determineGPUType model vendor =
     (let m = toLowerCase model; v = toLowerCase vendor
      in if apple_tokens m \<or> apple_tokens v then apple_unified
         else if nvidia_rule m v then dedicated
         else if amd_rule m v then dedicated
         else if arc_rule m then dedicated
         else integrated)"

text \<open>
  The order the code has: an absent or empty model is integrated whatever the vendor; then
  the dedicated rules (b), (c), (d); then the Apple tokens, looked for in the model only;
  then the default.
\<close>

definition code_order_GPUType :: "string \<Rightarrow> string \<Rightarrow> gpu_type" where
  "code_order_GPUType model vendor =
     (let m = toLowerCase model; v = toLowerCase vendor
      in if model = [] then integrated
         else if nvidia_rule m v \<or> amd_rule m v \<or> arc_rule m then dedicated
         else if apple_tokens m then apple_unified
         else integrated)"


section \<open>Numbers\<close>

text \<open>
  A JavaScript number is an IEEE-754 binary64 value.  The finite ones are rationals, and every
  arithmetic operation returns the exact result rounded to the nearest representable value,
  ties to the even significand: \<open>fl\<close>.  The significand has 53 bits, the least exponent is
  that of the subnormal numbers (\<open>2 powi - 1074\<close>).  There is no largest exponent in the model:
  where a double operation would overflow to \<^verbatim>\<open>Infinity\<close>, beyond \<open>2 ^ 1023\<close>, the model has
  a large finite value.  In the scores, whose fields are not negative, such a value only
  reaches \<^verbatim>\<open>Math.min(100, x)\<close>, which returns 100 for both.  \<^verbatim>\<open>NaN\<close> is excluded by the
  types: a numeric field is a number or absent, and each absence is a case of the model.
\<close>

definition rhe :: "rat \<Rightarrow> int" where
  \<comment> \<open>round to the nearest integer, ties to even\<close>
  "rhe y = (let f = \<lfloor>y\<rfloor>; d = y - of_int f
            in if d < 1/2 then f else if 1/2 < d then f + 1 else if even f then f else f + 1)"

definition log2floor :: "rat \<Rightarrow> int" where
  \<comment> \<open>for \<open>0 < x\<close>: the \<open>E\<close> with \<open>2 powi E \<le> x < 2 powi (E + 1)\<close>\<close>
  "log2floor x = (case quotient_of x of (p, q) \<Rightarrow>
      let k = bitlen p - bitlen q in if x < 2 powi k then k - 1 else k)"

definition fexp :: "rat \<Rightarrow> int" where
  \<comment> \<open>the exponent of the last bit of the significand\<close>
  "fexp x = max (log2floor \<bar>x\<bar> - 52) (- 1074)"

definition fl :: "rat \<Rightarrow> rat" where
  "fl x = (if x = 0 then 0
           else sgn x * of_int (rhe (\<bar>x\<bar> / 2 powi (fexp x))) * 2 powi (fexp x))"

definition fadd :: "rat \<Rightarrow> rat \<Rightarrow> rat" where
  "fadd a b = fl (a + b)"

definition fmul :: "rat \<Rightarrow> rat \<Rightarrow> rat" where
  "fmul a b = fl (a * b)"

definition fdiv :: "rat \<Rightarrow> rat \<Rightarrow> rat" where
  \<comment> \<open>only used with a non-zero constant divisor\<close>
  "fdiv a b = fl (a / b)"

definition lit :: "rat \<Rightarrow> rat" where
  \<comment> \<open>a decimal literal of the source text denotes the nearest double\<close>
  "lit d = fl d"

definition js_round :: "rat \<Rightarrow> int" where
  \<comment> \<open>\<^verbatim>\<open>Math.round\<close>: the nearest integer, a tie going up\<close>
  "js_round x = \<lfloor>x + 1/2\<rfloor>"

section \<open>GPU VRAM estimation\<close>

text \<open>
  A controller record of the inventory provider, with the fields the classifiers read.  A
  field that is \<^verbatim>\<open>null\<close> or \<^verbatim>\<open>undefined\<close> is \<open>None\<close>.  The reported sizes are in MB.
\<close>

record controller =
  c_model :: "string option"
  c_vendor :: "string option"
  c_vram :: "rat option"
  c_memoryTotal :: "rat option"

definition reported_gb :: "rat option \<Rightarrow> int option" where
  \<comment> \<open>\<^verbatim>\<open>if (x && x > 512) return Math.round(x / 1024)\<close>; \<open>None\<close>: the test fails\<close>
  "reported_gb x =
     (case x of
        None \<Rightarrow> None
      | Some v \<Rightarrow> if v \<noteq> 0 \<and> v > 512 then Some (js_round (fdiv v 1024)) else None)"

definition getGPUVRAM :: "controller \<Rightarrow> int" where
  "getGPUVRAM gpu =
     (let model = toLowerCase (or_empty (c_model gpu));
          vendor = toLowerCase (or_empty (c_vendor gpu))
      in if str_includes model ''ga107m'' \<or> str_includes model ''3050 ti'' then 4
         else if str_includes model ''3060'' then 6
         else if str_includes model ''3070'' then 8
         else if str_includes model ''3080'' then 10
         else if str_includes model ''4060'' then 8
         else if str_includes model ''4070'' then 12
         else if str_includes model ''4080'' then 16
         else if str_includes model ''rx 6600'' then 8
         else if str_includes model ''rx 6700'' then 12
         else if str_includes model ''rx 6800'' then 16
         else if str_includes model ''arc'' then 6
         else if str_includes vendor ''nvidia'' \<and> str_includes model ''mobile'' then 4
         else if str_includes vendor ''nvidia'' \<and> str_includes model ''geforce'' then 4
         else (case reported_gb (c_vram gpu) of
                 Some gb \<Rightarrow> gb
               | None \<Rightarrow>
                   (case reported_gb (c_memoryTotal gpu) of
                      Some gb \<Rightarrow> gb
                    | None \<Rightarrow> if str_includes vendor ''intel'' then 0 else 0)))"

text \<open>
  The resolution order in the words of the specification.  The table of known models is
  an ordered list of rules, the first match wins; a rule is a model token, or a vendor token
  and a model token.
\<close>

datatype vram_rule = Model string | VendorModel string string

fun rule_matches :: "string \<Rightarrow> string \<Rightarrow> vram_rule \<Rightarrow> bool" where
  "rule_matches m v (Model t) = str_includes m t"
| "rule_matches m v (VendorModel tv tm) = (str_includes v tv \<and> str_includes m tm)"

definition vram_table :: "(vram_rule \<times> int) list" where
  "vram_table =
     [(Model ''ga107m'', 4), (Model ''3050 ti'', 4), (Model ''3060'', 6), (Model ''3070'', 8),
      (Model ''3080'', 10), (Model ''4060'', 8), (Model ''4070'', 12), (Model ''4080'', 16),
      (Model ''rx 6600'', 8), (Model ''rx 6700'', 12), (Model ''rx 6800'', 16),
      (Model ''arc'', 6),
      (VendorModel ''nvidia'' ''mobile'', 4), (VendorModel ''nvidia'' ''geforce'', 4)]"

definition table_lookup :: "string \<Rightarrow> string \<Rightarrow> int option" where
  "table_lookup m v = map_option snd (find (\<lambda>r. rule_matches m v (fst r)) vram_table)"

definition integrated_vendor :: "string \<Rightarrow> bool" where
  "integrated_vendor v = str_includes v ''intel''"

definition mb_to_gb :: "rat \<Rightarrow> int" where
  "mb_to_gb mb = js_round (fdiv mb 1024)"

definition sensor_fallback :: "controller \<Rightarrow> int" where
  \<comment> \<open>steps (3), (4), (5)\<close>
  "sensor_fallback gpu =
     (case c_vram gpu of
        Some v \<Rightarrow> if v > 512 then mb_to_gb v
                  else (case c_memoryTotal gpu of
                          Some t \<Rightarrow> if t > 512 then mb_to_gb t else 0
                        | None \<Rightarrow> 0)
      | None \<Rightarrow> (case c_memoryTotal gpu of
                   Some t \<Rightarrow> if t > 512 then mb_to_gb t else 0
                 | None \<Rightarrow> 0))"

definition spec_getGPUVRAM :: "controller \<Rightarrow> int" where
  "spec_getGPUVRAM gpu =
     (let m = toLowerCase (or_empty (c_model gpu)); v = toLowerCase (or_empty (c_vendor gpu))
      in case table_lookup m v of
           Some gb \<Rightarrow> gb
         | None \<Rightarrow> if integrated_vendor v then 0 else sensor_fallback gpu)"

text \<open>The order the code has: the table, then the two sensor fields, then 0.\<close>

definition code_order_GPUVRAM :: "controller \<Rightarrow> int" where
  "code_order_GPUVRAM gpu =
     (let m = toLowerCase (or_empty (c_model gpu)); v = toLowerCase (or_empty (c_vendor gpu))
      in case table_lookup m v of
           Some gb \<Rightarrow> gb
         | None \<Rightarrow> sensor_fallback gpu)"

section \<open>Performance scores\<close>

text \<open>
  The normalised facts that \<^verbatim>\<open>calculatePerformanceScores\<close> reads.  Core counts and the
  results of \<^verbatim>\<open>Math.round\<close> are integers; the base frequency and the memory speed are
  numbers as reported.  The GPU and storage arguments are \<^verbatim>\<open>gpuInfo[0] || {}\<close> and
  \<^verbatim>\<open>storageInfo[0] || {}\<close>: \<open>None\<close> is the empty object, whose \<^verbatim>\<open>type\<close> is
  \<^verbatim>\<open>undefined\<close>.
\<close>

record cpuInfo =
  logicalCores :: int
  baseFrequencyGHz :: rat
  cacheSizeMB :: int

record memoryInfo =
  totalMemoryGB :: int
  memorySpeedMHz :: rat

record gpuInfo =
  brand :: string
  gpuModel :: string
  vramGB :: int
  gpuType :: gpu_type

datatype storage_type = SSD | HDD

record storageInfo =
  storageType :: storage_type
  sizeGB :: int

record performanceScores =
  overallScore :: int
  cpuScore :: int
  memoryScore :: int
  gpuScore :: int
  storageScore :: int

definition calc_cpuScore :: "cpuInfo \<Rightarrow> rat" where
  "calc_cpuScore cpu =
     min 100 (fadd (fadd (fmul (of_int (logicalCores cpu)) 5) (fmul (baseFrequencyGHz cpu) 10))
                   (fmul (of_int (cacheSizeMB cpu)) (lit (5/10))))"

definition calc_memoryScore :: "memoryInfo \<Rightarrow> rat" where
  "calc_memoryScore memory =
     min 100 (fadd (fmul (of_int (totalMemoryGB memory)) 4) (fdiv (memorySpeedMHz memory) 100))"

definition calc_gpuScore :: "gpuInfo option \<Rightarrow> rat" where
  "calc_gpuScore gpu =
     min 100 (case gpu of
                None \<Rightarrow> 30
              | Some g \<Rightarrow>
                  if gpuType g = dedicated then fadd 60 (fmul (of_int (vramGB g)) 4)
                  else if gpuType g = apple_unified then fadd 50 (fmul (of_int (vramGB g)) 3)
                  else 30)"

definition calc_storageScore :: "storageInfo option \<Rightarrow> rat" where
  "calc_storageScore storage =
     (case storage of None \<Rightarrow> 60 | Some d \<Rightarrow> if storageType d = SSD then 85 else 60)"

definition weighted_sum :: "rat \<Rightarrow> rat \<Rightarrow> rat \<Rightarrow> rat \<Rightarrow> rat" where
  \<comment> \<open>the argument of \<^verbatim>\<open>Math.round\<close>, summed from the left\<close>
  "weighted_sum c m g s =
     fadd (fadd (fadd (fmul c (lit (35/100))) (fmul m (lit (25/100)))) (fmul g (lit (30/100))))
          (fmul s (lit (10/100)))"

definition calculatePerformanceScores ::
  "cpuInfo \<Rightarrow> memoryInfo \<Rightarrow> gpuInfo option \<Rightarrow> storageInfo option \<Rightarrow> performanceScores" where
  "calculatePerformanceScores cpu memory gpu storage =
     (let c = calc_cpuScore cpu; m = calc_memoryScore memory;
          g = calc_gpuScore gpu; s = calc_storageScore storage
      in \<lparr>overallScore = js_round (weighted_sum c m g s),
          cpuScore = js_round c, memoryScore = js_round m,
          gpuScore = js_round g, storageScore = js_round s\<rparr>)"

text \<open>
  The scores in the words of the specification, in exact arithmetic: the sub-scores of
  section 4.3, and the overall score as their weighted sum, rounded half up, clamped to
  0..100.
\<close>

definition spec_cpuScore :: "cpuInfo \<Rightarrow> rat" where
  "spec_cpuScore cpu =
     min 100 (of_int (logicalCores cpu) * 5 + baseFrequencyGHz cpu * 10
              + of_int (cacheSizeMB cpu) * (5/10))"

definition spec_memoryScore :: "memoryInfo \<Rightarrow> rat" where
  "spec_memoryScore memory =
     min 100 (of_int (totalMemoryGB memory) * 4 + memorySpeedMHz memory / 100)"

definition spec_gpuScore :: "gpuInfo \<Rightarrow> rat" where
  "spec_gpuScore g =
     min 100 (if gpuType g = dedicated then 60 + of_int (vramGB g) * 4
              else if gpuType g = apple_unified then 50 + of_int (vramGB g) * 3
              else 30)"

definition spec_storageScore :: "storageInfo \<Rightarrow> rat" where
  "spec_storageScore d = (if storageType d = SSD then 85 else 60)"

definition clamp_score :: "int \<Rightarrow> int" where
  "clamp_score n = (if n < 0 then 0 else if 100 < n then 100 else n)"

definition exact_weighted_sum :: "rat \<Rightarrow> rat \<Rightarrow> rat \<Rightarrow> rat \<Rightarrow> rat" where
  "exact_weighted_sum c m g s = 35/100 * c + 25/100 * m + 30/100 * g + 10/100 * s"

definition spec_overallScore :: "rat \<Rightarrow> rat \<Rightarrow> rat \<Rightarrow> rat \<Rightarrow> int" where
  "spec_overallScore c m g s = clamp_score (round (exact_weighted_sum c m g s))"

text \<open>
  The hypothesis of the claims on scores: the numeric fields are not negative.  \<open>eps\<close> is
  half the distance of two neighbouring doubles just below 128, a bound on the rounding error
  of one operation whose exact result is below 128.
\<close>

definition nonneg_facts :: "cpuInfo \<Rightarrow> memoryInfo \<Rightarrow> gpuInfo option \<Rightarrow> bool" where
  "nonneg_facts cpu memory gpu =
     (0 \<le> logicalCores cpu \<and> 0 \<le> baseFrequencyGHz cpu \<and> 0 \<le> cacheSizeMB cpu
      \<and> 0 \<le> totalMemoryGB memory \<and> 0 \<le> memorySpeedMHz memory
      \<and> (case gpu of None \<Rightarrow> True | Some g \<Rightarrow> 0 \<le> vramGB g))"

definition eps :: rat where
  "eps = 1 / 2 ^ 47"

text \<open>
  The facts of the end-to-end example of the specification, and three more sets of facts:
  one whose exact weighted sum is 59.5, a weak machine, and the facts that are all zero.
\<close>

definition ex_cpu :: cpuInfo where
  "ex_cpu = \<lparr>logicalCores = 8, baseFrequencyGHz = 3, cacheSizeMB = 16\<rparr>"

definition ex_memory :: memoryInfo where
  "ex_memory = \<lparr>totalMemoryGB = 32, memorySpeedMHz = 3200\<rparr>"

definition ex_gpu :: gpuInfo where
  "ex_gpu = \<lparr>brand = ''NVIDIA'', gpuModel = ''NVIDIA GeForce RTX 3070'', vramGB = 8,
             gpuType = dedicated\<rparr>"

definition ex_storage :: storageInfo where
  "ex_storage = \<lparr>storageType = SSD, sizeGB = 512\<rparr>"

definition half_cpu :: cpuInfo where
  "half_cpu = \<lparr>logicalCores = 4, baseFrequencyGHz = 4, cacheSizeMB = 12\<rparr>"

definition half_memory :: memoryInfo where
  "half_memory = \<lparr>totalMemoryGB = 4, memorySpeedMHz = 2400\<rparr>"

definition half_gpu :: gpuInfo where
  "half_gpu = \<lparr>brand = ''NVIDIA'', gpuModel = ''NVIDIA T400'', vramGB = 2, gpuType = dedicated\<rparr>"

definition half_storage :: storageInfo where
  "half_storage = \<lparr>storageType = HDD, sizeGB = 512\<rparr>"

definition weak_cpu :: cpuInfo where
  "weak_cpu = \<lparr>logicalCores = 1, baseFrequencyGHz = 1, cacheSizeMB = 0\<rparr>"

definition weak_memory :: memoryInfo where
  "weak_memory = \<lparr>totalMemoryGB = 1, memorySpeedMHz = 0\<rparr>"

definition zero_cpu :: cpuInfo where
  "zero_cpu = \<lparr>logicalCores = 0, baseFrequencyGHz = 0, cacheSizeMB = 0\<rparr>"

definition zero_memory :: memoryInfo where
  "zero_memory = \<lparr>totalMemoryGB = 0, memorySpeedMHz = 0\<rparr>"

section \<open>Realtime broadcast loop\<close>

text \<open>
  The part of \<^verbatim>\<open>ApiServer\<close> that the broadcast loop consists of.  Sockets and timers are
  numbered.  \<open>clients\<close> is the \<^verbatim>\<open>Set\<close> of sockets in insertion order, \<open>open_sockets\<close> the
  sockets whose \<^verbatim>\<open>readyState\<close> is \<^verbatim>\<open>OPEN\<close>, \<open>realtimeInterval\<close> the timer handle or
  \<^verbatim>\<open>null\<close>.  The environment is part of the state: \<open>timers\<close> are the interval timers that
  are active, each with its period in milliseconds, \<open>in_flight\<close> counts the timer callbacks
  that are waiting for \<^verbatim>\<open>getRealtimeStats()\<close>, and \<open>delivered\<close> is the log of the
  \<^verbatim>\<open>realtime_stats\<close> messages sent, oldest first.  Other messages sent to a socket (the
  initial data, replies, errors) are not part of the state.
\<close>

record apiServer =
  clients :: "nat list"
  open_sockets :: "nat set"
  realtimeInterval :: "nat option"
  timers :: "(nat \<times> nat) list"
  next_timer :: nat
  in_flight :: nat
  delivered :: "(nat \<times> nat) list"

definition new_ApiServer :: apiServer where
  "new_ApiServer = \<lparr>clients = [], open_sockets = {}, realtimeInterval = None, timers = [],
                      next_timer = 0, in_flight = 0, delivered = []\<rparr>"

definition setInterval :: "nat \<Rightarrow> apiServer \<Rightarrow> nat \<times> apiServer" where
  "setInterval period s =
     (next_timer s, s\<lparr>timers := (next_timer s, period) # timers s,
                       next_timer := Suc (next_timer s)\<rparr>)"

definition clearInterval :: "nat \<Rightarrow> apiServer \<Rightarrow> apiServer" where
  "clearInterval t s = s\<lparr>timers := filter (\<lambda>tp. fst tp \<noteq> t) (timers s)\<rparr>"

definition startRealtimeUpdates :: "apiServer \<Rightarrow> apiServer" where
  "startRealtimeUpdates s =
     (case realtimeInterval s of
        Some t \<Rightarrow> s
      | None \<Rightarrow> (case setInterval 2000 s of (t, s') \<Rightarrow> s'\<lparr>realtimeInterval := Some t\<rparr>))"

definition stopRealtimeUpdates :: "apiServer \<Rightarrow> apiServer" where
  "stopRealtimeUpdates s =
     (case realtimeInterval s of
        Some t \<Rightarrow> (clearInterval t s)\<lparr>realtimeInterval := None\<rparr>
      | None \<Rightarrow> s)"

definition broadcast :: "nat \<Rightarrow> apiServer \<Rightarrow> apiServer" where
  "broadcast sample s =
     s\<lparr>delivered := delivered s
          @ map (\<lambda>client. (client, sample)) (filter (\<lambda>client. client \<in> open_sockets s) (clients s))\<rparr>"

datatype ws_message = start_realtime | stop_realtime | get_hardware | get_ollama_status
  | other_message

definition handleWebSocketMessage :: "nat \<Rightarrow> ws_message \<Rightarrow> apiServer \<Rightarrow> apiServer" where
  "handleWebSocketMessage ws msg s =
     (case msg of
        start_realtime \<Rightarrow> startRealtimeUpdates s
      | stop_realtime \<Rightarrow> stopRealtimeUpdates s
      | _ \<Rightarrow> s)"

definition on_connection :: "nat \<Rightarrow> apiServer \<Rightarrow> apiServer" where
  "on_connection ws s =
     s\<lparr>clients := (if ws \<in> set (clients s) then clients s else clients s @ [ws]),
       open_sockets := insert ws (open_sockets s)\<rparr>"

definition on_close :: "nat \<Rightarrow> apiServer \<Rightarrow> apiServer" where
  "on_close ws s =
     (let s1 = s\<lparr>clients := removeAll ws (clients s), open_sockets := open_sockets s - {ws}\<rparr>
      in if clients s1 = [] \<and> realtimeInterval s1 \<noteq> None
         then (case realtimeInterval s1 of
                 Some t \<Rightarrow> (clearInterval t s1)\<lparr>realtimeInterval := None\<rparr>
               | None \<Rightarrow> s1)
         else s1)"

text \<open>
  The events of the single-threaded event loop.  A timer callback is two events: the timer
  fires, which only an active timer does, and starts \<^verbatim>\<open>getRealtimeStats()\<close>; later the
  awaited result arrives, \<open>None\<close> for \<^verbatim>\<open>null\<close>, and is broadcast to the clients of that
  moment.  \<open>Closing\<close> is a socket leaving the \<^verbatim>\<open>OPEN\<close> state before its \<^verbatim>\<open>close\<close> event.
\<close>

datatype event =
    Connection nat
  | Message nat ws_message
  | Closing nat
  | Close nat
  | TimerFires nat
  | StatsResolved "nat option"
  | ServerStop

fun step :: "apiServer \<Rightarrow> event \<Rightarrow> apiServer" where
  "step s (Connection ws) = on_connection ws s"
| "step s (Message ws msg) = handleWebSocketMessage ws msg s"
| "step s (Closing ws) = s\<lparr>open_sockets := open_sockets s - {ws}\<rparr>"
| "step s (Close ws) = on_close ws s"
| "step s (TimerFires t) =
     (if t \<in> fst ` set (timers s) then s\<lparr>in_flight := Suc (in_flight s)\<rparr> else s)"
| "step s (StatsResolved r) =
     (if in_flight s = 0 then s
      else (case r of
              None \<Rightarrow> s\<lparr>in_flight := in_flight s - 1\<rparr>
            | Some sample \<Rightarrow> broadcast sample (s\<lparr>in_flight := in_flight s - 1\<rparr>)))"
| "step s ServerStop = stopRealtimeUpdates s"

definition run :: "apiServer \<Rightarrow> event list \<Rightarrow> apiServer" where
  "run s es = foldl step s es"

datatype loop_state = IDLE | ACTIVE

definition loop_state_of :: "apiServer \<Rightarrow> loop_state" where
  "loop_state_of s = (case realtimeInterval s of None \<Rightarrow> IDLE | Some t \<Rightarrow> ACTIVE)"

definition one_timer :: "apiServer \<Rightarrow> bool" where
  \<comment> \<open>the active timers are the one the server holds, with the period 2000 ms\<close>
  "one_timer s =
     (timers s = (case realtimeInterval s of None \<Rightarrow> [] | Some t \<Rightarrow> [(t, 2000)]))"

definition starts :: "event \<Rightarrow> bool" where
  "starts e = (case e of Message ws start_realtime \<Rightarrow> True | _ \<Rightarrow> False)"

section \<open>Fingerprint\<close>

text \<open>
  \<^verbatim>\<open>Buffer.from(s).toString('base64')\<close>: the bytes of the string, three at a time, as four
  characters of the base64 alphabet, padded with \<open>=\<close>.  Strings are ASCII, so the bytes of a
  string are its characters.
\<close>

definition b64_alphabet :: string where
  "b64_alphabet = ''ABCDEFGHIJKLMNOPQRSTUVWXYZabcdefghijklmnopqrstuvwxyz0123456789+/''"

definition b64 :: "nat \<Rightarrow> char" where
  "b64 n = b64_alphabet ! (n mod 64)"

fun base64 :: "nat list \<Rightarrow> string" where
  "base64 [] = []"
| "base64 [a] = [b64 (a div 4), b64 (a mod 4 * 16), CHR ''='', CHR ''='']"
| "base64 [a, b] =
     [b64 (a div 4), b64 (a mod 4 * 16 + b div 16), b64 (b mod 16 * 4), CHR ''='']"
| "base64 (a # b # c # bs) =
     [b64 (a div 4), b64 (a mod 4 * 16 + b div 16), b64 (b mod 16 * 4 + c div 64),
      b64 (c mod 64)] @ base64 bs"

definition Buffer_from :: "string \<Rightarrow> nat list" where
  "Buffer_from s = map of_char s"

text \<open>
  The conversion of a number to a string in a template literal, for an integer.  Every
  integer below \<open>2 ^ 53\<close> is a Number, and so are the integers next to it: the string is its
  decimal digits.  From \<open>2 ^ 53\<close> on, an integer stands for the nearest Number \<open>x\<close>, and the
  string is made of the digits of the least number of digits \<open>k\<close> such that some \<open>s\<close> of \<open>k\<close>
  digits and some \<open>e\<close> have \<open>s * 10 ^ e\<close> rounding to \<open>x\<close> (of two such \<open>s\<close> the one nearer to
  \<open>x\<close>): the digits of \<open>s\<close> and \<open>e\<close> zeros up to 21 digits in all, the exponent notation
  beyond.
\<close>

function digits :: "int \<Rightarrow> string" where
  "digits n =
     (if n < 10 then [char_of (48 + nat n)]
      else digits (n div 10) @ [char_of (48 + nat (n mod 10))])"
  by pat_completeness auto

termination digits
  by (relation "measure nat") auto

function strip_zeros :: "int \<Rightarrow> nat \<Rightarrow> int \<times> nat" where
  "strip_zeros s e = (if 0 < s \<and> s mod 10 = 0 then strip_zeros (s div 10) (e + 1) else (s, e))"
  by pat_completeness auto

termination strip_zeros
  by (relation "measure (\<lambda>(s, e). nat s)") auto

definition rounds_to :: "int \<Rightarrow> int \<Rightarrow> bool" where
  "rounds_to v x = (fl (of_int v) = of_int x)"

definition shortest_at :: "int \<Rightarrow> nat \<Rightarrow> (int \<times> nat) option" where
  \<comment> \<open>the multiple of \<open>10 ^ e\<close> nearest to \<open>x\<close> that rounds to \<open>x\<close>, if there is one\<close>
  "shortest_at x e =
     (let p = 10 ^ e; lo = x div p; below = lo * p; above = (lo + 1) * p
      in if rounds_to below x \<and> rounds_to above x
           then Some (strip_zeros (if x - below \<le> above - x then lo else lo + 1) e)
         else if rounds_to below x then Some (strip_zeros lo e)
         else if rounds_to above x then Some (strip_zeros (lo + 1) e)
         else None)"

fun first_some :: "('a \<Rightarrow> 'b option) \<Rightarrow> 'a list \<Rightarrow> 'b option" where
  "first_some f [] = None"
| "first_some f (x # xs) = (case f x of Some y \<Rightarrow> Some y | None \<Rightarrow> first_some f xs)"

definition shortest :: "int \<Rightarrow> int \<times> nat" where
  "shortest x =
     (case first_some (shortest_at x) (rev [0..<length (digits x)]) of
        Some r \<Rightarrow> r
      | None \<Rightarrow> (x, 0))"

definition Number_toString :: "int \<Rightarrow> string" where
  "Number_toString m =
     (if m < 2 ^ 53 then digits m
      else let (s, e) = shortest \<lfloor>fl (of_int m)\<rfloor>;
               ds = digits s; k = length ds; n = k + e
           in if n \<le> 21 then ds @ replicate e (CHR ''0'')
              else if k = 1 then ds @ ''e+'' @ digits (int n - 1)
              else hd ds # CHR ''.'' # tl ds @ ''e+'' @ digits (int n - 1))"

definition js_toString :: "int \<Rightarrow> string" where
  "js_toString n = (if n < 0 then CHR ''-'' # Number_toString (- n) else Number_toString n)"

definition or_string :: "string option \<Rightarrow> string \<Rightarrow> string" where
  \<comment> \<open>\<^verbatim>\<open>x || d\<close> for a string \<open>x\<close> that may be absent\<close>
  "or_string x d = (case x of None \<Rightarrow> d | Some s \<Rightarrow> if s = [] then d else s)"

definition fingerprintData :: "cpuInfo \<Rightarrow> memoryInfo \<Rightarrow> gpuInfo list \<Rightarrow> string \<Rightarrow> string" where
  "fingerprintData cpu memory gpus os =
     js_toString (logicalCores cpu) @ ''-'' @ js_toString (totalMemoryGB memory) @ ''-''
     @ or_string (case gpus of [] \<Rightarrow> None | g # _ \<Rightarrow> Some (gpuModel g)) ''integrated''
     @ ''-'' @ os"

definition hardwareFingerprint_of ::
  "cpuInfo \<Rightarrow> memoryInfo \<Rightarrow> gpuInfo list \<Rightarrow> string \<Rightarrow> string" where
  "hardwareFingerprint_of cpu memory gpus os =
     take 16 (base64 (Buffer_from (fingerprintData cpu memory gpus os)))"

text \<open>
  The canonical string in the words of the specification: the logical core count, the
  total memory, the model of the primary GPU or \<open>integrated\<close> when there is no GPU, and the
  platform, joined by \<open>-\<close>.
\<close>

definition canonical_string :: "int \<Rightarrow> int \<Rightarrow> string option \<Rightarrow> string \<Rightarrow> string" where
  "canonical_string cores mem primary os =
     js_toString cores @ ''-'' @ js_toString mem @ ''-''
     @ (case primary of None \<Rightarrow> ''integrated'' | Some model \<Rightarrow> model) @ ''-'' @ os"

section \<open>Full analysis\<close>

text \<open>
  The answers of the inventory provider.  A query that rejects is \<open>Inl\<close> of its error.  Of
  each answer the record has the fields that the scores, the tier and the fingerprint are
  computed from; brand and model strings of the CPU, the memory type, temperatures, usage,
  network interfaces and the battery are left out, their queries answer \<open>()\<close> or reject.
  \<open>arrival\<close> is the order in which the promises of the queries that run at the same time
  settle.  \<open>clock\<close> and \<open>clock_stored\<close> are the two readings of the time, for the time
  stamp of the analysis and for the one the detector keeps.

  A size of the CPU cache is a number, \<^verbatim>\<open>null\<close>, or absent (\<^verbatim>\<open>undefined\<close>, also when the
  answer has no \<^verbatim>\<open>cache\<close> at all); in a sum \<^verbatim>\<open>null\<close> counts as 0 and \<^verbatim>\<open>undefined\<close> as
  \<^verbatim>\<open>NaN\<close>, for which \<open>ToNumber\<close> has \<open>None\<close>.
\<close>

datatype js_error = Error (message: string)

datatype js_number = js_undefined | js_null | js_num rat

definition ToNumber :: "js_number \<Rightarrow> rat option" where
  "ToNumber v = (case v of js_undefined \<Rightarrow> None | js_null \<Rightarrow> Some 0 | js_num x \<Rightarrow> Some x)"

record raw_cpu =
  cores :: int
  speed :: "rat option"
  cache_l1d :: js_number
  cache_l1i :: js_number
  cache_l2 :: js_number
  cache_l3 :: js_number

record raw_disk =
  disk_type :: string
  disk_size :: rat

datatype query =
  si_cpu | si_mem | si_graphics | si_osInfo | si_system | si_diskLayout
  | si_networkInterfaces | si_battery

record inventory =
  q_cpu :: "js_error + raw_cpu"
  q_mem :: "js_error + rat"
  q_graphics :: "js_error + controller list"
  q_osInfo :: "js_error + string"
  q_system :: "js_error + unit"
  q_diskLayout :: "js_error + raw_disk list"
  q_networkInterfaces :: "js_error + unit"
  q_battery :: "js_error + unit"
  q_currentLoad :: "js_error + unit"
  q_cpuTemperature :: "js_error + unit"
  q_memLayout :: "js_error + rat option list"
  q_fsSize :: "js_error + rat list"
  arrival :: "query list"
  clock :: string
  clock_stored :: string

record analysis =
  hardwareFingerprint :: string
  spec_cpu :: cpuInfo
  spec_memory :: memoryInfo
  spec_gpu :: gpuInfo
  totalSpaceGB :: rat
  availableSpaceGB :: int
  spec_storageType :: storage_type
  drives :: "storageInfo list"
  spec_os :: string
  scores :: performanceScores
  hardwareTier :: tier
  analysisTime :: string

record detector =
  lastAnalysis :: "analysis option"
  analysisTimestamp :: "string option"

definition cacheSizeMB_of :: "raw_cpu \<Rightarrow> int" where
  \<comment> \<open>\<^verbatim>\<open>Math.round((l1d + l1i + l2 + l3) / (1024 * 1024)) || 0\<close>; an absent part makes the
      sum \<^verbatim>\<open>NaN\<close>, which \<^verbatim>\<open>|| 0\<close> turns into 0\<close>
  "cacheSizeMB_of cpu =
     (case (ToNumber (cache_l1d cpu), ToNumber (cache_l1i cpu), ToNumber (cache_l2 cpu),
            ToNumber (cache_l3 cpu)) of
        (Some a, Some b, Some c, Some d) \<Rightarrow>
          js_round (fdiv (fadd (fadd (fadd a b) c) d) (fmul 1024 1024))
      | _ \<Rightarrow> 0)"

definition cpuInfo_of :: "raw_cpu \<Rightarrow> cpuInfo" where
  "cpuInfo_of cpu =
     \<lparr>logicalCores = cores cpu,
      baseFrequencyGHz = (case speed cpu of None \<Rightarrow> 0 | Some v \<Rightarrow> v),
      cacheSizeMB = cacheSizeMB_of cpu\<rparr>"

definition bytes_to_GB :: "rat \<Rightarrow> int" where
  \<comment> \<open>\<^verbatim>\<open>Math.round(x / (1024 * 1024 * 1024))\<close>\<close>
  "bytes_to_GB x = js_round (fdiv x (fmul (fmul 1024 1024) 1024))"

definition detectMemorySpeed :: "rat option list \<Rightarrow> rat" where
  "detectMemorySpeed memLayout =
     (case memLayout of
        [] \<Rightarrow> 0
      | clockSpeed # _ \<Rightarrow> (case clockSpeed of None \<Rightarrow> 0 | Some v \<Rightarrow> v))"

definition memoryInfo_of :: "rat \<Rightarrow> rat option list \<Rightarrow> memoryInfo" where
  "memoryInfo_of memTotal memLayout =
     \<lparr>totalMemoryGB = bytes_to_GB memTotal, memorySpeedMHz = detectMemorySpeed memLayout\<rparr>"

definition extractGPUBrand :: "string option \<Rightarrow> string" where
  "extractGPUBrand vendor =
     (if or_empty vendor = [] then ''Unknown''
      else let vendorLower = toLowerCase (or_empty vendor)
      in if str_includes vendorLower ''nvidia'' \<or> str_includes vendorLower ''geforce''
           then ''NVIDIA''
         else if str_includes vendorLower ''amd'' \<or> str_includes vendorLower ''ati''
              \<or> str_includes vendorLower ''radeon'' then ''AMD''
         else if str_includes vendorLower ''intel'' \<and> \<not> str_includes vendorLower ''nvidia''
           then ''Intel''
         else if str_includes vendorLower ''apple'' then ''Apple''
         else or_empty vendor)"

definition gpu_of :: "controller \<Rightarrow> gpuInfo" where
  "gpu_of gpu =
     \<lparr>brand = extractGPUBrand (if or_empty (c_vendor gpu) = [] then c_model gpu else c_vendor gpu),
      gpuModel = or_string (c_model gpu) ''Unknown GPU'',
      vramGB = getGPUVRAM gpu,
      gpuType = determineGPUType (c_model gpu) (c_vendor gpu)\<rparr>"

text \<open>
  \<^verbatim>\<open>allGPUs.sort(compare)\<close>.  The comparison puts the dedicated GPUs first and orders by
  falling VRAM otherwise; the sort is stable, here by insertion.
\<close>

definition gpu_compare :: "gpuInfo \<Rightarrow> gpuInfo \<Rightarrow> int" where
  "gpu_compare a b =
     (if gpuType a = dedicated \<and> gpuType b \<noteq> dedicated then - 1
      else if gpuType b = dedicated \<and> gpuType a \<noteq> dedicated then 1
      else vramGB b - vramGB a)"

fun gpu_insert :: "gpuInfo \<Rightarrow> gpuInfo list \<Rightarrow> gpuInfo list" where
  "gpu_insert x [] = [x]"
| "gpu_insert x (y # ys) = (if gpu_compare x y \<le> 0 then x # y # ys else y # gpu_insert x ys)"

definition gpu_sort :: "gpuInfo list \<Rightarrow> gpuInfo list" where
  "gpu_sort gs = foldr gpu_insert gs []"

definition gpuInfo_of :: "controller list \<Rightarrow> gpuInfo list" where
  "gpuInfo_of controllers = gpu_sort (map gpu_of controllers)"

definition storageInfo_of :: "raw_disk \<Rightarrow> storageInfo" where
  "storageInfo_of disk =
     \<lparr>storageType = (if disk_type disk = ''SSD'' then SSD else HDD),
      sizeGB = bytes_to_GB (disk_size disk)\<rparr>"

definition getAvailableStorage :: "js_error + rat list \<Rightarrow> int" where
  \<comment> \<open>catches the error of its query\<close>
  "getAvailableStorage fsSize =
     (case fsSize of
        Inl e \<Rightarrow> 0
      | Inr avail \<Rightarrow> if avail = [] then 0 else bytes_to_GB (foldl fadd 0 avail))"

definition default_gpu :: gpuInfo where
  "default_gpu = \<lparr>brand = ''Unknown'', gpuModel = ''Integrated Graphics'', vramGB = 0,
                  gpuType = integrated\<rparr>"

definition first_or_none :: "'a list \<Rightarrow> 'a option" where
  \<comment> \<open>\<^verbatim>\<open>xs[0]\<close>, \<open>None\<close> for \<^verbatim>\<open>undefined\<close>\<close>
  "first_or_none xs = (case xs of [] \<Rightarrow> None | x # _ \<Rightarrow> Some x)"

definition build_analysis ::
  "raw_cpu \<Rightarrow> rat \<Rightarrow> controller list \<Rightarrow> string \<Rightarrow> raw_disk list \<Rightarrow> rat option list
     \<Rightarrow> js_error + rat list \<Rightarrow> string \<Rightarrow> analysis" where
  "build_analysis cpu memTotal controllers platform diskLayout memLayout fsSize now =
     (let cpuInfo = cpuInfo_of cpu;
          memoryInfo = memoryInfo_of memTotal memLayout;
          gpuInfo = gpuInfo_of controllers;
          storageInfo = map storageInfo_of diskLayout;
          performanceScores =
            calculatePerformanceScores cpuInfo memoryInfo (first_or_none gpuInfo)
              (first_or_none storageInfo)
      in \<lparr>hardwareFingerprint = hardwareFingerprint_of cpuInfo memoryInfo gpuInfo platform,
          spec_cpu = cpuInfo,
          spec_memory = memoryInfo,
          spec_gpu = (case gpuInfo of [] \<Rightarrow> default_gpu | g # _ \<Rightarrow> g),
          totalSpaceGB = foldl (\<lambda>sum disk. fadd sum (of_int (sizeGB disk))) 0 storageInfo,
          availableSpaceGB = getAvailableStorage fsSize,
          spec_storageType = (case storageInfo of [] \<Rightarrow> SSD | d # _ \<Rightarrow> storageType d),
          drives = storageInfo,
          spec_os = platform,
          scores = performanceScores,
          hardwareTier = calculateHardwareTier (overallScore performanceScores),
          analysisTime = now\<rparr>)"

text \<open>
  The \<^verbatim>\<open>try\<close> block of \<^verbatim>\<open>detectHardware\<close> awaits \<^verbatim>\<open>Promise.all\<close> of eight queries, then
  three more queries, one after the other.

  The eight queries of \<^verbatim>\<open>Promise.all\<close> run at the same time.  \<^verbatim>\<open>Promise.all\<close> rejects as soon
  as one of them rejects, with the error of that one, whatever its place in the array and
  whether or not the others have settled; it fulfils with the eight values when all have
  fulfilled.  Which rejection comes first is decided by the order in which the promises
  settle, which the inventory gives as \<open>arrival\<close>; a query that \<open>arrival\<close> leaves out settles
  after the listed ones, in the order of the array.
\<close>

definition rejection :: "js_error + 'a \<Rightarrow> js_error option" where
  "rejection r = (case r of Inl e \<Rightarrow> Some e | Inr x \<Rightarrow> None)"

definition rejection_of :: "inventory \<Rightarrow> query \<Rightarrow> js_error option" where
  "rejection_of env q =
     (case q of
        si_cpu \<Rightarrow> rejection (q_cpu env)
      | si_mem \<Rightarrow> rejection (q_mem env)
      | si_graphics \<Rightarrow> rejection (q_graphics env)
      | si_osInfo \<Rightarrow> rejection (q_osInfo env)
      | si_system \<Rightarrow> rejection (q_system env)
      | si_diskLayout \<Rightarrow> rejection (q_diskLayout env)
      | si_networkInterfaces \<Rightarrow> rejection (q_networkInterfaces env)
      | si_battery \<Rightarrow> rejection (q_battery env))"

definition promise_array :: "query list" where
  "promise_array = [si_cpu, si_mem, si_graphics, si_osInfo, si_system, si_diskLayout,
                    si_networkInterfaces, si_battery]"

fun first_rejection :: "inventory \<Rightarrow> query list \<Rightarrow> js_error option" where
  "first_rejection env [] = None"
| "first_rejection env (q # qs) =
     (case rejection_of env q of Some e \<Rightarrow> Some e | None \<Rightarrow> first_rejection env qs)"

definition bind_result :: "js_error + 'a \<Rightarrow> ('a \<Rightarrow> js_error + 'b) \<Rightarrow> js_error + 'b" where
  "bind_result r f = (case r of Inl e \<Rightarrow> Inl e | Inr x \<Rightarrow> f x)"

definition Promise_all ::
  "inventory \<Rightarrow> js_error + raw_cpu \<times> rat \<times> controller list \<times> string \<times> raw_disk list" where
  "Promise_all env =
     (case first_rejection env (arrival env @ promise_array) of
        Some e \<Rightarrow> Inl e
      | None \<Rightarrow>
          bind_result (q_cpu env) (\<lambda>cpu.
          bind_result (q_mem env) (\<lambda>memTotal.
          bind_result (q_graphics env) (\<lambda>controllers.
          bind_result (q_osInfo env) (\<lambda>platform.
          bind_result (q_system env) (\<lambda>_.
          bind_result (q_diskLayout env) (\<lambda>diskLayout.
          bind_result (q_networkInterfaces env) (\<lambda>_.
          bind_result (q_battery env) (\<lambda>_.
            Inr (cpu, memTotal, controllers, platform, diskLayout))))))))))"

definition try_detect :: "inventory \<Rightarrow> js_error + analysis" where
  "try_detect env =
     bind_result (Promise_all env) (\<lambda>(cpu, memTotal, controllers, platform, diskLayout).
     bind_result (q_currentLoad env) (\<lambda>_.
     bind_result (q_cpuTemperature env) (\<lambda>_.
     bind_result (q_memLayout env) (\<lambda>memLayout.
       Inr (build_analysis cpu memTotal controllers platform diskLayout memLayout
              (q_fsSize env) (clock env))))))"

definition detectHardware :: "detector \<Rightarrow> inventory \<Rightarrow> (js_error + analysis) \<times> detector" where
  "detectHardware this env =
     (case try_detect env of
        Inr a \<Rightarrow> (Inr a, this\<lparr>lastAnalysis := Some a, analysisTimestamp := Some (clock_stored env)\<rparr>)
      | Inl error \<Rightarrow> (Inl (Error (''Hardware detection failed: '' @ message error)), this))"

text \<open>
  The errors of the queries that reject: of the eight of \<^verbatim>\<open>Promise.all\<close>, and of the three
  that follow, which are sent one after the other, so that of these the analysis meets the
  first that rejects.
\<close>

definition error_of :: "js_error + 'a \<Rightarrow> js_error list" where
  "error_of r = (case r of Inl e \<Rightarrow> [e] | Inr x \<Rightarrow> [])"

definition parallel_rejections :: "inventory \<Rightarrow> js_error list" where
  "parallel_rejections env =
     error_of (q_cpu env) @ error_of (q_mem env) @ error_of (q_graphics env)
     @ error_of (q_osInfo env) @ error_of (q_system env) @ error_of (q_diskLayout env)
     @ error_of (q_networkInterfaces env) @ error_of (q_battery env)"

definition sequential_rejections :: "inventory \<Rightarrow> js_error list" where
  "sequential_rejections env =
     error_of (q_currentLoad env) @ error_of (q_cpuTemperature env)
     @ error_of (q_memLayout env)"

definition rejections :: "inventory \<Rightarrow> js_error list" where
  "rejections env = parallel_rejections env @ sequential_rejections env"

text \<open>
  The answers of a machine with 8 cores, 32 GB, an RTX 3070 and an SSD; the same with the
  graphics query and the battery query rejecting, the battery query before the graphics
  query; and a detector that holds the analysis of the first.
\<close>

definition sample_inventory :: inventory where
  "sample_inventory =
     \<lparr>q_cpu = Inr \<lparr>cores = 8, speed = Some 3, cache_l1d = js_num 262144,
                    cache_l1i = js_num 262144, cache_l2 = js_num 4194304,
                    cache_l3 = js_num 12058624\<rparr>,
      q_mem = Inr 34359738368,
      q_graphics = Inr [\<lparr>c_model = Some ''NVIDIA GeForce RTX 3070'', c_vendor = Some ''NVIDIA'',
                          c_vram = Some 8192, c_memoryTotal = None\<rparr>],
      q_osInfo = Inr ''linux'',
      q_system = Inr (),
      q_diskLayout = Inr [\<lparr>disk_type = ''SSD'', disk_size = 549755813888\<rparr>],
      q_networkInterfaces = Inr (),
      q_battery = Inr (),
      q_currentLoad = Inr (),
      q_cpuTemperature = Inr (),
      q_memLayout = Inr [Some 3200],
      q_fsSize = Inr [274877906944],
      arrival = [si_osInfo, si_system, si_cpu, si_mem, si_battery, si_networkInterfaces,
                 si_diskLayout, si_graphics],
      clock = ''2024-05-01T10:00:00.000Z'',
      clock_stored = ''2024-05-01T10:00:00.001Z''\<rparr>"

definition failing_inventory :: inventory where
  "failing_inventory =
     sample_inventory\<lparr>q_graphics := Inl (Error ''graphics query timed out''),
                       q_battery := Inl (Error ''no battery information''),
                       clock := ''2024-05-01T10:05:00.000Z''\<rparr>"

definition sample_detector :: detector where
  "sample_detector = snd (detectHardware \<lparr>lastAnalysis = None, analysisTimestamp = None\<rparr>
                            sample_inventory)"

section \<open>Properties of the rounding\<close>

lemma bitlen_powi:
  assumes "0 < (n::int)"
  shows "(2::rat) powi (bitlen n - 1) \<le> of_int n" "of_int n < (2::rat) powi (bitlen n)"
proof -
  from bitlen_bounds[OF assms] have a: "2 ^ nat (bitlen n - 1) \<le> n" and b: "n < 2 ^ nat (bitlen n)"
    by auto
  have ge1: "1 \<le> bitlen n" using assms by (auto simp: bitlen_alt_def)
  have "(of_int (2 ^ nat (bitlen n - 1)) :: rat) \<le> of_int n" using a by (simp only: of_int_le_iff)
  then show "(2::rat) powi (bitlen n - 1) \<le> of_int n"
    using ge1 by (simp add: power_int_def)
  have "(of_int n :: rat) < of_int (2 ^ nat (bitlen n))" using b by (simp only: of_int_less_iff)
  then show "of_int n < (2::rat) powi (bitlen n)"
    using ge1 by (simp add: power_int_def)
qed

lemma log2floor_bounds:
  assumes "0 < x"
  shows "2 powi (log2floor x) \<le> x \<and> x < 2 powi (log2floor x + 1)"
proof -
  obtain p q where pq: "quotient_of x = (p, q)" by (cases "quotient_of x")
  then have q: "0 < q" and x: "x = of_int p / of_int q"
    by (auto simp: quotient_of_denom_pos quotient_of_div)
  with assms have p: "0 < p" by (simp add: zero_less_divide_iff)
  define k where "k = bitlen p - bitlen q"
  note bp = bitlen_powi[OF p] and bq = bitlen_powi[OF q]
  have qpos: "(0::rat) < of_int q" using q by simp
  have "x < 2 powi (bitlen p) / 2 powi (bitlen q - 1)"
    unfolding x using bp(2) bq(1) p
    by (intro frac_less) auto
  moreover have "(2::rat) powi (bitlen p - (bitlen q - 1)) = 2 powi (bitlen p) / 2 powi (bitlen q - 1)"
    by (rule power_int_diff) simp
  moreover have "bitlen p - (bitlen q - 1) = k + 1" by (simp add: k_def)
  ultimately have up: "x < 2 powi (k + 1)" by simp
  have "2 powi (bitlen p - 1) / 2 powi (bitlen q) < x"
    unfolding x using bp(1) bq(2) qpos
    by (intro frac_less2) auto
  moreover have "(2::rat) powi (bitlen p - 1 - bitlen q) = 2 powi (bitlen p - 1) / 2 powi (bitlen q)"
    by (rule power_int_diff) simp
  moreover have "bitlen p - 1 - bitlen q = k - 1" by (simp add: k_def)
  ultimately have lo: "2 powi (k - 1) < x" by simp
  have "log2floor x = (if x < 2 powi k then k - 1 else k)"
    by (simp add: log2floor_def pq k_def Let_def)
  then show ?thesis using up lo by (auto simp: not_less)
qed

lemma two_powi_less_D: "(2::rat) powi a < 2 powi b \<Longrightarrow> a < b"
proof (rule ccontr)
  assume h: "2 powi a < (2::rat) powi b" and "\<not> a < b"
  then have "b \<le> a" by simp
  then have "(2::rat) powi b \<le> 2 powi a" by (intro power_int_increasing) auto
  with h show False by simp
qed

lemma log2floor_unique:
  assumes "0 < x" "2 powi E \<le> x" "x < 2 powi (E + 1)"
  shows "log2floor x = E"
proof -
  from log2floor_bounds[OF assms(1)] have a: "2 powi (log2floor x) \<le> x" and b: "x < 2 powi (log2floor x + 1)"
    by auto
  have "(2::rat) powi E < 2 powi (log2floor x + 1)" using assms(2) b by simp
  then have 1: "E < log2floor x + 1" by (rule two_powi_less_D)
  have "(2::rat) powi (log2floor x) < 2 powi (E + 1)" using a assms(3) by simp
  then have 2: "log2floor x < E + 1" by (rule two_powi_less_D)
  from 1 2 show ?thesis by simp
qed

lemma rhe_of_int: "rhe (of_int n) = n"
  by (simp add: rhe_def)

lemma rhe_cases:
  "rhe y = \<lfloor>y\<rfloor> \<and> y - of_int \<lfloor>y\<rfloor> \<le> 1/2 \<or> rhe y = \<lfloor>y\<rfloor> + 1 \<and> 1/2 \<le> y - of_int \<lfloor>y\<rfloor>"
  by (auto simp: rhe_def Let_def)

lemma rhe_mono:
  assumes "y \<le> z"
  shows "rhe y \<le> rhe z"
proof (cases "\<lfloor>y\<rfloor> = \<lfloor>z\<rfloor>")
  case True
  with assms show ?thesis by (auto simp: rhe_def Let_def)
next
  case False
  with assms have "\<lfloor>y\<rfloor> + 1 \<le> \<lfloor>z\<rfloor>" using floor_mono[OF assms] by simp
  moreover have "rhe y \<le> \<lfloor>y\<rfloor> + 1" using rhe_cases[of y] by auto
  moreover have "\<lfloor>z\<rfloor> \<le> rhe z" using rhe_cases[of z] by auto
  ultimately show ?thesis by simp
qed

lemma rhe_le: "y \<le> of_int n \<Longrightarrow> rhe y \<le> n"
  using rhe_mono[of y "of_int n"] by (simp add: rhe_of_int)

lemma rhe_ge: "of_int n \<le> y \<Longrightarrow> n \<le> rhe y"
  using rhe_mono[of "of_int n" y] by (simp add: rhe_of_int)

lemma rhe_err: "\<bar>of_int (rhe y) - y\<bar> \<le> 1/2"
proof -
  have "of_int \<lfloor>y\<rfloor> \<le> y" "y < of_int \<lfloor>y\<rfloor> + 1" by linarith+
  then show ?thesis using rhe_cases[of y] by auto
qed

lemma fl_zero: "fl 0 = 0"
  by (simp add: fl_def)

lemma fl_pos: "0 < x \<Longrightarrow> fl x = of_int (rhe (x / 2 powi (fexp x))) * 2 powi (fexp x)"
  by (simp add: fl_def)

lemma fexp_pos: "0 < x \<Longrightarrow> fexp x = max (log2floor x - 52) (- 1074)"
  by (simp add: fexp_def)

lemma fl_nonneg: "0 \<le> x \<Longrightarrow> 0 \<le> fl x"
proof (cases "x = 0")
  case False
  assume "0 \<le> x"
  with False have x: "0 < x" by simp
  have "(0::rat) \<le> x / 2 powi (fexp x)" using x by simp
  then have "0 \<le> rhe (x / 2 powi (fexp x))" using rhe_ge[of 0] by simp
  then show ?thesis by (simp add: fl_pos[OF x])
qed (simp add: fl_zero)

lemma fl_mono_pos:
  assumes x: "0 < x" and xy: "x \<le> y"
  shows "fl x \<le> fl y"
proof -
  have y: "0 < y" using x xy by simp
  note bx = log2floor_bounds[OF x] and bndy = log2floor_bounds[OF y]
  have exy: "fexp x \<le> fexp y"
  proof -
    have "(2::rat) powi (log2floor x) < 2 powi (log2floor y + 1)" using bx bndy xy by linarith
    then have "log2floor x < log2floor y + 1" by (rule two_powi_less_D)
    then show ?thesis by (simp add: fexp_pos x y)
  qed
  show ?thesis
  proof (cases "fexp x = fexp y")
    case True
    have "x / 2 powi (fexp y) \<le> y / 2 powi (fexp y)" using xy by (simp add: divide_right_mono)
    then have "rhe (x / 2 powi (fexp y)) \<le> rhe (y / 2 powi (fexp y))" by (rule rhe_mono)
    then show ?thesis by (simp add: fl_pos x y True)
  next
    case False
    with exy have lt: "fexp x < fexp y" by simp
    then have ey: "fexp y = log2floor y - 52" and ex: "log2floor x - 52 \<le> fexp x"
      by (auto simp: fexp_pos x y)
    define N where "N = max (log2floor x + 1 - fexp x) 0"
    have N0: "0 \<le> N" by (simp add: N_def)
    have "x / 2 powi (fexp x) \<le> 2 powi (log2floor x + 1) / 2 powi (fexp x)"
      using bx by (simp add: divide_right_mono)
    also have "\<dots> = 2 powi (log2floor x + 1 - fexp x)"
      by (rule power_int_diff[symmetric]) simp
    also have "\<dots> \<le> 2 powi N"
      by (intro power_int_increasing) (auto simp: N_def)
    also have "\<dots> = of_int (2 ^ nat N)" using N0 by (simp add: power_int_def)
    finally have "rhe (x / 2 powi (fexp x)) \<le> 2 ^ nat N" by (rule rhe_le)
    then have "(of_int (rhe (x / 2 powi (fexp x))) :: rat) \<le> of_int (2 ^ nat N)"
      by (simp only: of_int_le_iff)
    also have "\<dots> = 2 powi N" using N0 by (simp add: power_int_def)
    finally have "fl x \<le> 2 powi N * 2 powi (fexp x)"
      by (simp add: fl_pos x mult_right_mono)
    also have "\<dots> = 2 powi (N + fexp x)" by (simp flip: power_int_add)
    also have "\<dots> \<le> 2 powi (log2floor y)"
      using lt ey ex by (intro power_int_increasing) (auto simp: N_def)
    finally have a: "fl x \<le> 2 powi (log2floor y)" .
    have "(2::rat) powi 52 = 2 powi (log2floor y) / 2 powi (fexp y)"
      unfolding ey by (subst power_int_diff[symmetric]) auto
    also have "\<dots> \<le> y / 2 powi (fexp y)" using bndy by (simp add: divide_right_mono)
    finally have "of_int (2 ^ 52) \<le> y / 2 powi (fexp y)" by simp
    then have "2 ^ 52 \<le> rhe (y / 2 powi (fexp y))" by (rule rhe_ge)
    then have "(of_int (2 ^ 52) :: rat) \<le> of_int (rhe (y / 2 powi (fexp y)))"
      by (simp only: of_int_le_iff)
    then have "2 powi 52 * 2 powi (fexp y) \<le> fl y"
      by (simp add: fl_pos y mult_right_mono)
    moreover have "(2::rat) powi 52 * 2 powi (fexp y) = 2 powi (log2floor y)"
      unfolding ey by (subst power_int_add[symmetric]) auto
    ultimately show ?thesis using a by simp
  qed
qed

lemma fl_mono: "0 \<le> x \<Longrightarrow> x \<le> y \<Longrightarrow> fl x \<le> fl y"
  by (cases "x = 0") (auto simp: fl_zero fl_nonneg intro: fl_mono_pos)

lemma fl_err_pos:
  assumes x: "0 < x"
  shows "\<bar>fl x - x\<bar> \<le> 2 powi (fexp x) / 2"
proof -
  define e where "e = fexp x"
  have p: "(0::rat) < 2 powi e" by simp
  have "fl x - x = (of_int (rhe (x / 2 powi e)) - x / 2 powi e) * 2 powi e"
    using p by (simp add: fl_pos x e_def algebra_simps)
  then have "\<bar>fl x - x\<bar> = \<bar>of_int (rhe (x / 2 powi e)) - x / 2 powi e\<bar> * 2 powi e"
    by (simp add: abs_mult)
  also have "\<dots> \<le> (1/2) * 2 powi e"
    by (intro mult_right_mono rhe_err) simp
  finally show ?thesis by (simp add: e_def)
qed

lemma fl_err_128:
  assumes "0 \<le> x" "x < 128"
  shows "\<bar>fl x - x\<bar> \<le> 1 / 2 ^ 47"
proof (cases "x = 0")
  case False
  with assms have x: "0 < x" by simp
  have "(2::rat) powi (log2floor x) < 2 powi 7" using log2floor_bounds[OF x] assms by simp
  then have "log2floor x < 7" by (rule two_powi_less_D)
  then have "fexp x \<le> - 46" by (simp add: fexp_pos x)
  then have "(2::rat) powi (fexp x) \<le> 2 powi (- 46)"
    by (intro power_int_increasing) auto
  then have "(2::rat) powi (fexp x) / 2 \<le> 1 / 2 ^ 47"
    by (simp add: power_int_minus field_simps)
  with fl_err_pos[OF x] show ?thesis by linarith
qed (simp add: fl_zero)

lemma fl_eval:
  assumes "0 < x" "- 1074 \<le> e" "2 powi (e + 52) \<le> x" "x < 2 powi (e + 53)"
  shows "fl x = of_int (rhe (x / 2 powi e)) * 2 powi e"
proof -
  have "log2floor x = e + 52"
    using assms by (intro log2floor_unique) (auto simp: algebra_simps)
  then have "fexp x = e" using assms by (simp add: fexp_def)
  then show ?thesis using assms by (simp add: fl_def)
qed

lemma rhe_near:
  assumes "\<bar>y - of_int n\<bar> < 1/2"
  shows "rhe y = n"
proof -
  have "\<bar>(of_int (rhe y) :: rat) - of_int n\<bar> < 1"
    using rhe_err[of y] assms by linarith
  then have "\<bar>(of_int (rhe y - n) :: rat)\<bar> < of_int 1" by simp
  then have "\<bar>rhe y - n\<bar> < 1" by (simp only: of_int_abs[symmetric] of_int_less_iff)
  then show ?thesis by simp
qed

lemma fl_near:
  assumes "0 < x" "- 1074 \<le> e" "2 powi (e + 52) \<le> x" "x < 2 powi (e + 53)"
    and "\<bar>x / 2 powi e - of_int n\<bar> < 1/2"
  shows "fl x = of_int n * 2 powi e"
  using fl_eval[OF assms(1-4)] rhe_near[OF assms(5)] by simp

lemma rhe_tie:
  assumes "y = of_int f + 1/2"
  shows "rhe y = (if even f then f else f + 1)"
proof -
  have "\<lfloor>y\<rfloor> = f" unfolding assms by linarith
  then show ?thesis by (simp add: rhe_def Let_def assms)
qed

lemma fl_tie:
  assumes "0 < x" "- 1074 \<le> e" "2 powi (e + 52) \<le> x" "x < 2 powi (e + 53)"
    and "x / 2 powi e = of_int f + 1/2"
  shows "fl x = of_int (if even f then f else f + 1) * 2 powi e"
  using fl_eval[OF assms(1-4)] rhe_tie[OF assms(5)] by simp

lemma fl_of_int:
  assumes "0 \<le> n" "n < 2 ^ 53"
  shows "fl (of_int n) = of_int n"
proof (cases "n = 0")
  case False
  define x :: rat where "x = of_int n"
  have x: "0 < x" "1 \<le> x" "x < 2 powi 53" using False assms by (auto simp: x_def)
  note b = log2floor_bounds[OF x(1)]
  have "(2::rat) powi 0 < 2 powi (log2floor x + 1)" using b x(2) by simp
  then have lo: "0 \<le> log2floor x" using two_powi_less_D by fastforce
  have "(2::rat) powi (log2floor x) < 2 powi 53" using b x(3) by linarith
  then have hi: "log2floor x < 53" by (rule two_powi_less_D)
  define k where "k = nat (52 - log2floor x)"
  have e: "fexp x = - int k" using lo hi by (simp add: fexp_pos x(1) k_def)
  have p: "(2::rat) powi (fexp x) = 1 / 2 ^ k"
    unfolding e by (simp add: power_int_minus field_simps)
  have "x / 2 powi (fexp x) = of_int (n * 2 ^ k)"
    unfolding p by (simp add: x_def)
  then have "rhe (x / 2 powi (fexp x)) = n * 2 ^ k" by (simp only: rhe_of_int)
  then have "fl x = of_int (n * 2 ^ k) * (1 / 2 ^ k)" by (simp only: fl_pos[OF x(1)] p)
  also have "\<dots> = x" by (simp add: x_def)
  finally show ?thesis by (simp only: x_def)
qed (simp add: fl_zero)

section \<open>Properties of the scores\<close>

lemma fl_numeral_exact:
  "fl 30 = 30" "fl 40 = 40" "fl 50 = 50" "fl 60 = 60" "fl 100 = 100"
  using fl_of_int[of 30] fl_of_int[of 40] fl_of_int[of 50] fl_of_int[of 60] fl_of_int[of 100]
  by simp_all

lemma fadd_nonneg: "0 \<le> a \<Longrightarrow> 0 \<le> b \<Longrightarrow> 0 \<le> fadd a b"
  by (simp add: fadd_def fl_nonneg)

lemma fmul_nonneg: "0 \<le> a \<Longrightarrow> 0 \<le> b \<Longrightarrow> 0 \<le> fmul a b"
  by (simp add: fmul_def fl_nonneg)

lemma fdiv_nonneg: "0 \<le> a \<Longrightarrow> 0 \<le> b \<Longrightarrow> 0 \<le> fdiv a b"
  by (simp add: fdiv_def fl_nonneg)

lemma lit_nonneg: "0 \<le> d \<Longrightarrow> 0 \<le> lit d"
  by (simp add: lit_def fl_nonneg)

lemma calc_cpuScore_range:
  assumes "0 \<le> logicalCores cpu" "0 \<le> baseFrequencyGHz cpu" "0 \<le> cacheSizeMB cpu"
  shows "0 \<le> calc_cpuScore cpu \<and> calc_cpuScore cpu \<le> 100"
  using assms by (simp add: calc_cpuScore_def fadd_nonneg fmul_nonneg lit_nonneg)

lemma calc_memoryScore_range:
  assumes "0 \<le> totalMemoryGB memory" "0 \<le> memorySpeedMHz memory"
  shows "0 \<le> calc_memoryScore memory \<and> calc_memoryScore memory \<le> 100"
  using assms by (simp add: calc_memoryScore_def fadd_nonneg fmul_nonneg fdiv_nonneg)

lemma fadd_const_ge:
  assumes "0 \<le> k" "fl k = k" "0 \<le> b"
  shows "k \<le> fadd k b"
proof -
  have "fl k \<le> fl (k + b)" using assms by (intro fl_mono) auto
  then show ?thesis by (simp add: fadd_def assms)
qed

lemma calc_gpuScore_range:
  assumes "case gpu of None \<Rightarrow> True | Some g \<Rightarrow> 0 \<le> vramGB g"
  shows "30 \<le> calc_gpuScore gpu \<and> calc_gpuScore gpu \<le> 100"
proof (cases gpu)
  case None
  then show ?thesis by (simp add: calc_gpuScore_def)
next
  case (Some g)
  with assms have v: "(0::rat) \<le> fmul (of_int (vramGB g)) 4" "(0::rat) \<le> fmul (of_int (vramGB g)) 3"
    by (auto intro: fmul_nonneg)
  have "60 \<le> fadd 60 (fmul (of_int (vramGB g)) 4)" "50 \<le> fadd 50 (fmul (of_int (vramGB g)) 3)"
    using v by (auto intro!: fadd_const_ge simp: fl_numeral_exact)
  then show ?thesis using Some by (simp add: calc_gpuScore_def)
qed

lemma calc_storageScore_cases:
  "calc_storageScore storage = 60 \<or> calc_storageScore storage = 85"
  by (simp add: calc_storageScore_def split: option.splits)

lemma eps_bounds: "0 < eps" "eps < 1 / 1000"
  by (simp_all add: eps_def)

lemma fl_err_eps: "0 \<le> x \<Longrightarrow> x < 128 \<Longrightarrow> \<bar>fl x - x\<bar> \<le> eps"
  using fl_err_128[of x] by (simp add: eps_def)

lemma fmul_lit_err:
  assumes "0 \<le> c" "c \<le> 100" "0 \<le> w" "w \<le> 1"
  shows "\<bar>fmul c (lit w) - c * w\<bar> \<le> 101 * eps"
proof -
  define k where "k = lit w"
  have k: "\<bar>k - w\<bar> \<le> eps" "0 \<le> k"
    using assms fl_err_eps[of w] by (auto simp: k_def lit_def fl_nonneg)
  have "\<bar>c * k - c * w\<bar> = c * \<bar>k - w\<bar>"
    using assms(1) by (simp add: abs_mult flip: right_diff_distrib)
  also have "\<dots> \<le> 100 * eps"
    using assms k by (intro mult_mono) auto
  finally have d: "\<bar>c * k - c * w\<bar> \<le> 100 * eps" .
  have "c * w \<le> 100 * 1" using assms by (intro mult_mono) auto
  with d eps_bounds have "c * k < 128" by linarith
  moreover have "0 \<le> c * k" using assms k by simp
  ultimately have "\<bar>fl (c * k) - c * k\<bar> \<le> eps" by (intro fl_err_eps)
  with d show ?thesis unfolding fmul_def k_def[symmetric] by linarith
qed

lemma fadd_err:
  assumes "0 \<le> a" "0 \<le> b" "a + b < 128"
  shows "\<bar>fadd a b - (a + b)\<bar> \<le> eps"
  unfolding fadd_def using assms by (intro fl_err_eps) auto

lemma weighted_sum_err:
  assumes "0 \<le> c" "c \<le> 100" "0 \<le> m" "m \<le> 100" "0 \<le> g" "g \<le> 100" "0 \<le> s" "s \<le> 100"
  shows "\<bar>weighted_sum c m g s - exact_weighted_sum c m g s\<bar> \<le> 407 * eps"
proof -
  define p1 where "p1 = fmul c (lit (35/100))"
  define p2 where "p2 = fmul m (lit (25/100))"
  define p3 where "p3 = fmul g (lit (30/100))"
  define p4 where "p4 = fmul s (lit (10/100))"
  define s1 where "s1 = fadd p1 p2"
  define s2 where "s2 = fadd s1 p3"
  have e1: "\<bar>p1 - c * (35/100)\<bar> \<le> 101 * eps"
    unfolding p1_def using assms by (intro fmul_lit_err) auto
  have e2: "\<bar>p2 - m * (25/100)\<bar> \<le> 101 * eps"
    unfolding p2_def using assms by (intro fmul_lit_err) auto
  have e3: "\<bar>p3 - g * (30/100)\<bar> \<le> 101 * eps"
    unfolding p3_def using assms by (intro fmul_lit_err) auto
  have e4: "\<bar>p4 - s * (10/100)\<bar> \<le> 101 * eps"
    unfolding p4_def using assms by (intro fmul_lit_err) auto
  have n: "0 \<le> p1" "0 \<le> p2" "0 \<le> p3" "0 \<le> p4"
    using assms by (auto simp: p1_def p2_def p3_def p4_def intro!: fmul_nonneg lit_nonneg)
  have n1: "0 \<le> s1" unfolding s1_def using n by (intro fadd_nonneg)
  have n2: "0 \<le> s2" unfolding s2_def using n n1 by (intro fadd_nonneg)
  note b = eps_bounds
  have "p1 + p2 < 128" using e1 e2 assms b by linarith
  then have f1: "\<bar>s1 - (p1 + p2)\<bar> \<le> eps"
    unfolding s1_def using n by (intro fadd_err)
  have "s1 + p3 < 128" using e1 e2 e3 f1 assms b by linarith
  then have f2: "\<bar>s2 - (s1 + p3)\<bar> \<le> eps"
    unfolding s2_def using n n1 by (intro fadd_err)
  have "s2 + p4 < 128" using e1 e2 e3 e4 f1 f2 assms b by linarith
  then have f3: "\<bar>fadd s2 p4 - (s2 + p4)\<bar> \<le> eps"
    using n n2 by (intro fadd_err)
  have w: "weighted_sum c m g s = fadd s2 p4"
    by (simp add: weighted_sum_def s2_def s1_def p1_def p2_def p3_def p4_def)
  show ?thesis unfolding w exact_weighted_sum_def
    using e1 e2 e3 e4 f1 f2 f3 by linarith
qed

lemma js_round_eq:
  assumes "of_int n \<le> x + 1/2" "x + 1/2 < of_int n + 1"
  shows "js_round x = n"
  unfolding js_round_def using assms by (intro floor_unique) auto

lemma js_round_of_int: "js_round (of_int n) = n"
  by (rule js_round_eq) auto

section \<open>The rounded operations at the inputs used below\<close>

text \<open>
  One lemma for each operation on the way to the scores of the four sets of facts.  For the
  exact result \<open>x\<close> the proof names the exponent \<open>e\<close> of the last bit of the significand
  and the significand \<open>n\<close>; the premises of \<open>fl_near\<close> (of \<open>fl_tie\<close> for a tie), that
  \<open>x\<close> lies in the binade of \<open>e\<close> and that \<open>n\<close> is the nearest integer to \<open>x / 2 powi e\<close>,
  are arithmetic on numerals.
\<close>

named_theorems ev \<open>values of the rounded operations\<close>

lemma ev_1 [ev]: "fmul 8 5 = 40"
  using fl_near[of "40" "- 47" 5629499534213120] by (simp add: fmul_def)

lemma ev_2 [ev]: "fmul 3 10 = 30"
  using fl_near[of "30" "- 48" 8444249301319680] by (simp add: fmul_def)

lemma ev_3 [ev]: "fadd 40 30 = 70"
  using fl_near[of "70" "- 46" 4925812092436480] by (simp add: fadd_def)

lemma ev_4 [ev]: "lit (1 / 2) = (1 / 2)"
  using fl_near[of "(1 / 2)" "- 53" 4503599627370496] by (simp add: lit_def)

lemma ev_5 [ev]: "fmul 16 (1 / 2) = 8"
  using fl_near[of "8" "- 49" 4503599627370496] by (simp add: fmul_def)

lemma ev_6 [ev]: "fadd 70 8 = 78"
  using fl_near[of "78" "- 46" 5488762045857792] by (simp add: fadd_def)

lemma ev_7 [ev]: "fmul 32 4 = 128"
  using fl_near[of "128" "- 45" 4503599627370496] by (simp add: fmul_def)

lemma ev_8 [ev]: "fdiv 3200 100 = 32"
  using fl_near[of "32" "- 47" 4503599627370496] by (simp add: fdiv_def)

lemma ev_9 [ev]: "fadd 128 32 = 160"
  using fl_near[of "160" "- 45" 5629499534213120] by (simp add: fadd_def)

lemma ev_10 [ev]: "fmul 8 4 = 32"
  using fl_near[of "32" "- 47" 4503599627370496] by (simp add: fmul_def)

lemma ev_11 [ev]: "fadd 60 32 = 92"
  using fl_near[of "92" "- 46" 6473924464345088] by (simp add: fadd_def)

lemma ev_12 [ev]: "lit (7 / 20) = (3152519739159347 / 9007199254740992)"
  using fl_near[of "(7 / 20)" "- 54" 6305039478318694] by (simp add: lit_def)

lemma ev_13 [ev]: "fmul 78 (3152519739159347 / 9007199254740992)
    = (1921066716050227 / 70368744177664)"
  using fl_near[of "(122948269827214533 / 4503599627370496)" "- 48" 7684266864200908]
  by (simp add: fmul_def)

lemma ev_14 [ev]: "lit (1 / 4) = (1 / 4)"
  using fl_near[of "(1 / 4)" "- 54" 4503599627370496] by (simp add: lit_def)

lemma ev_15 [ev]: "fmul 100 (1 / 4) = 25"
  using fl_near[of "25" "- 48" 7036874417766400] by (simp add: fmul_def)

lemma ev_16 [ev]: "fadd (1921066716050227 / 70368744177664) 25
    = (3680285320491827 / 70368744177664)"
  using fl_near[of "(3680285320491827 / 70368744177664)" "- 47" 7360570640983654]
  by (simp add: fadd_def)

lemma ev_17 [ev]: "lit (3 / 10) = (5404319552844595 / 18014398509481984)"
  using fl_near[of "(3 / 10)" "- 54" 5404319552844595] by (simp add: lit_def)

lemma ev_18 [ev]: "fmul 92 (5404319552844595 / 18014398509481984)
    = (7768709357214105 / 281474976710656)"
  using fl_near[of "(124299349715425685 / 4503599627370496)" "- 48" 7768709357214105]
  by (simp add: fmul_def)

lemma ev_19 [ev]: "fadd (3680285320491827 / 70368744177664) (7768709357214105 / 281474976710656)
    = (5622462659795353 / 70368744177664)"
  using fl_near[of "(22489850639181413 / 281474976710656)" "- 46" 5622462659795353]
  by (simp add: fadd_def)

lemma ev_20 [ev]: "lit (1 / 10) = (3602879701896397 / 36028797018963968)"
  using fl_near[of "(1 / 10)" "- 56" 7205759403792794] by (simp add: lit_def)

lemma ev_21 [ev]: "fmul 85 (3602879701896397 / 36028797018963968) = (17 / 2)"
  using fl_near[of "(306244774661193745 / 36028797018963968)" "- 49" 4785074604081152]
  by (simp add: fmul_def)

lemma ev_22 [ev]: "fadd (5622462659795353 / 70368744177664) (17 / 2)
    = (6220596985305497 / 70368744177664)"
  using fl_near[of "(6220596985305497 / 70368744177664)" "- 46" 6220596985305497]
  by (simp add: fadd_def)

lemma ev_23 [ev]: "fmul 4 5 = 20"
  using fl_near[of "20" "- 48" 5629499534213120] by (simp add: fmul_def)

lemma ev_24 [ev]: "fmul 4 10 = 40"
  using fl_near[of "40" "- 47" 5629499534213120] by (simp add: fmul_def)

lemma ev_25 [ev]: "fadd 20 40 = 60"
  using fl_near[of "60" "- 47" 8444249301319680] by (simp add: fadd_def)

lemma ev_26 [ev]: "fmul 12 (1 / 2) = 6"
  using fl_near[of "6" "- 50" 6755399441055744] by (simp add: fmul_def)

lemma ev_27 [ev]: "fadd 60 6 = 66"
  using fl_near[of "66" "- 46" 4644337115725824] by (simp add: fadd_def)

lemma ev_28 [ev]: "fmul 4 4 = 16"
  using fl_near[of "16" "- 48" 4503599627370496] by (simp add: fmul_def)

lemma ev_29 [ev]: "fdiv 2400 100 = 24"
  using fl_near[of "24" "- 48" 6755399441055744] by (simp add: fdiv_def)

lemma ev_30 [ev]: "fadd 16 24 = 40"
  using fl_near[of "40" "- 47" 5629499534213120] by (simp add: fadd_def)

lemma ev_31 [ev]: "fmul 2 4 = 8"
  using fl_near[of "8" "- 49" 4503599627370496] by (simp add: fmul_def)

lemma ev_32 [ev]: "fadd 60 8 = 68"
  using fl_near[of "68" "- 46" 4785074604081152] by (simp add: fadd_def)

lemma ev_33 [ev]: "fmul 66 (3152519739159347 / 9007199254740992)
    = (6502071962016153 / 281474976710656)"
  using fl_near[of "(104033151392258451 / 4503599627370496)" "- 48" 6502071962016153]
  by (simp add: fmul_def)

lemma ev_34 [ev]: "fmul 40 (1 / 4) = 10"
  using fl_near[of "10" "- 49" 5629499534213120] by (simp add: fmul_def)

lemma ev_35 [ev]: "fadd (6502071962016153 / 281474976710656) 10
    = (1164602716140339 / 35184372088832)"
  using fl_tie[of "(9316821729122713 / 281474976710656)" "- 47" 4658410864561356]
  by (simp add: fadd_def)

lemma ev_36 [ev]: "fmul 68 (5404319552844595 / 18014398509481984)
    = (2871044762448691 / 140737488355328)"
  using fl_near[of "(91873432398358115 / 4503599627370496)" "- 48" 5742089524897382]
  by (simp add: fmul_def)

lemma ev_37 [ev]: "fadd (1164602716140339 / 35184372088832) (2871044762448691 / 140737488355328)
    = (7529455627010047 / 140737488355328)"
  using fl_near[of "(7529455627010047 / 140737488355328)" "- 47" 7529455627010047]
  by (simp add: fadd_def)

lemma ev_38 [ev]: "fmul 60 (3602879701896397 / 36028797018963968) = 6"
  using fl_near[of "(54043195528445955 / 9007199254740992)" "- 50" 6755399441055744]
  by (simp add: fmul_def)

lemma ev_39 [ev]: "fadd (7529455627010047 / 140737488355328) 6
    = (8373880557142015 / 140737488355328)"
  using fl_near[of "(8373880557142015 / 140737488355328)" "- 47" 8373880557142015]
  by (simp add: fadd_def)

lemma ev_40 [ev]: "fmul 1 5 = 5"
  using fl_near[of "5" "- 50" 5629499534213120] by (simp add: fmul_def)

lemma ev_41 [ev]: "fmul 1 10 = 10"
  using fl_near[of "10" "- 49" 5629499534213120] by (simp add: fmul_def)

lemma ev_42 [ev]: "fadd 5 10 = 15"
  using fl_near[of "15" "- 49" 8444249301319680] by (simp add: fadd_def)

lemma ev_43 [ev]: "fmul 0 (1 / 2) = 0"
  by (simp add: fmul_def fl_zero)

lemma ev_44 [ev]: "fadd 15 0 = 15"
  using fl_near[of "15" "- 49" 8444249301319680] by (simp add: fadd_def)

lemma ev_45 [ev]: "fmul 1 4 = 4"
  using fl_near[of "4" "- 50" 4503599627370496] by (simp add: fmul_def)

lemma ev_46 [ev]: "fdiv 0 100 = 0"
  by (simp add: fdiv_def fl_zero)

lemma ev_47 [ev]: "fadd 4 0 = 4"
  using fl_near[of "4" "- 50" 4503599627370496] by (simp add: fadd_def)

lemma ev_48 [ev]: "fmul 15 (3152519739159347 / 9007199254740992) = (21 / 4)"
  using fl_near[of "(47287796087390205 / 9007199254740992)" "- 50" 5910974510923776]
  by (simp add: fmul_def)

lemma ev_49 [ev]: "fmul 4 (1 / 4) = 1"
  using fl_near[of "1" "- 52" 4503599627370496] by (simp add: fmul_def)

lemma ev_50 [ev]: "fadd (21 / 4) 1 = (25 / 4)"
  using fl_near[of "(25 / 4)" "- 50" 7036874417766400] by (simp add: fadd_def)

lemma ev_51 [ev]: "fmul 30 (5404319552844595 / 18014398509481984) = 9"
  using fl_near[of "(81064793292668925 / 9007199254740992)" "- 49" 5066549580791808]
  by (simp add: fmul_def)

lemma ev_52 [ev]: "fadd (25 / 4) 9 = (61 / 4)"
  using fl_near[of "(61 / 4)" "- 49" 8584986789675008] by (simp add: fadd_def)

lemma ev_53 [ev]: "fadd (61 / 4) 6 = (85 / 4)"
  using fl_near[of "(85 / 4)" "- 48" 5981343255101440] by (simp add: fadd_def)

lemma ev_54 [ev]: "fmul 0 5 = 0"
  by (simp add: fmul_def fl_zero)

lemma ev_55 [ev]: "fmul 0 10 = 0"
  by (simp add: fmul_def fl_zero)

lemma ev_56 [ev]: "fadd 0 0 = 0"
  by (simp add: fadd_def fl_zero)

lemma ev_57 [ev]: "fmul 0 4 = 0"
  by (simp add: fmul_def fl_zero)

lemma ev_58 [ev]: "fmul 0 (3152519739159347 / 9007199254740992) = 0"
  by (simp add: fmul_def fl_zero)

lemma ev_59 [ev]: "fmul 0 (1 / 4) = 0"
  by (simp add: fmul_def fl_zero)

lemma ev_60 [ev]: "fadd 0 9 = 9"
  using fl_near[of "9" "- 49" 5066549580791808] by (simp add: fadd_def)

lemma ev_61 [ev]: "fadd 9 6 = 15"
  using fl_near[of "15" "- 49" 8444249301319680] by (simp add: fadd_def)

lemma js_round_numeral:
  "js_round (numeral a / numeral b) = (2 * numeral a + numeral b) div (2 * numeral b)"
proof -
  have "(numeral a / numeral b + 1/2 :: rat) = of_int (2 * numeral a + numeral b) / of_int (2 * numeral b)"
    by (simp add: field_simps)
  then show ?thesis unfolding js_round_def by (simp only: floor_divide_of_int_eq)
qed

lemma js_round_numeral_int: "js_round (numeral a) = numeral a" "js_round 0 = 0"
  using js_round_of_int[of "numeral a"] js_round_of_int[of 0] by simp_all

lemmas score_defs = calculatePerformanceScores_def calc_cpuScore_def calc_memoryScore_def
  calc_gpuScore_def calc_storageScore_def weighted_sum_def Let_def

lemmas facts_defs = ex_cpu_def ex_memory_def ex_gpu_def ex_storage_def
  half_cpu_def half_memory_def half_gpu_def half_storage_def
  weak_cpu_def weak_memory_def zero_cpu_def zero_memory_def

lemma subscores_example:
  "calc_cpuScore ex_cpu = 78" "calc_memoryScore ex_memory = 100"
  "calc_gpuScore (Some ex_gpu) = 92" "calc_storageScore (Some ex_storage) = 85"
  by (simp_all add: score_defs facts_defs ev)

lemma scores_example:
  "calculatePerformanceScores ex_cpu ex_memory (Some ex_gpu) (Some ex_storage)
   = \<lparr>overallScore = 88, cpuScore = 78, memoryScore = 100, gpuScore = 92, storageScore = 85\<rparr>"
  by (simp add: score_defs facts_defs ev js_round_numeral js_round_numeral_int)

lemma subscores_half:
  "calc_cpuScore half_cpu = 66" "calc_memoryScore half_memory = 40"
  "calc_gpuScore (Some half_gpu) = 68" "calc_storageScore (Some half_storage) = 60"
  by (simp_all add: score_defs facts_defs ev)

lemma scores_half:
  "calculatePerformanceScores half_cpu half_memory (Some half_gpu) (Some half_storage)
   = \<lparr>overallScore = 59, cpuScore = 66, memoryScore = 40, gpuScore = 68, storageScore = 60\<rparr>"
  by (simp add: score_defs facts_defs ev js_round_numeral js_round_numeral_int)

lemma scores_weak:
  "calculatePerformanceScores weak_cpu weak_memory None (Some half_storage)
   = \<lparr>overallScore = 21, cpuScore = 15, memoryScore = 4, gpuScore = 30, storageScore = 60\<rparr>"
  by (simp add: score_defs facts_defs ev js_round_numeral js_round_numeral_int)

lemma scores_zero:
  "calculatePerformanceScores zero_cpu zero_memory None None
   = \<lparr>overallScore = 15, cpuScore = 0, memoryScore = 0, gpuScore = 30, storageScore = 60\<rparr>"
  by (simp add: score_defs facts_defs ev js_round_numeral js_round_numeral_int)

lemma exact_weighted_sum_range:
  assumes "0 \<le> c" "c \<le> 100" "0 \<le> m" "m \<le> 100" "30 \<le> g" "g \<le> 100" "60 \<le> s" "s \<le> 100"
  shows "15 \<le> exact_weighted_sum c m g s" "exact_weighted_sum c m g s \<le> 100"
  using assms unfolding exact_weighted_sum_def by linarith+

lemma js_round_mono: "x \<le> y \<Longrightarrow> js_round x \<le> js_round y"
  unfolding js_round_def by (intro floor_mono) simp

lemma js_round_is_round: "js_round x = round x"
  by (simp add: js_round_def round_def)

lemma overall_bounds:
  assumes "0 \<le> c" "c \<le> 100" "0 \<le> m" "m \<le> 100" "30 \<le> g" "g \<le> 100" "60 \<le> s" "s \<le> 100"
  shows "round (exact_weighted_sum c m g s - 407 * eps) \<le> js_round (weighted_sum c m g s)"
    and "js_round (weighted_sum c m g s) \<le> round (exact_weighted_sum c m g s + 407 * eps)"
    and "15 \<le> js_round (weighted_sum c m g s)"
    and "js_round (weighted_sum c m g s) \<le> 100"
    and "\<bar>js_round (weighted_sum c m g s) - spec_overallScore c m g s\<bar> \<le> 1"
proof -
  define w where "w = weighted_sum c m g s"
  define W where "W = exact_weighted_sum c m g s"
  have e: "\<bar>w - W\<bar> \<le> 407 * eps"
    unfolding w_def W_def using assms by (intro weighted_sum_err) auto
  have W: "15 \<le> W" "W \<le> 100"
    unfolding W_def using assms by (auto intro: exact_weighted_sum_range)
  note b = eps_bounds
  have lo: "W - 407 * eps \<le> w" and hi: "w \<le> W + 407 * eps" using e by linarith+
  show 1: "round (W - 407 * eps) \<le> js_round w"
    unfolding js_round_is_round[symmetric] using lo by (rule js_round_mono)
  show 2: "js_round w \<le> round (W + 407 * eps)"
    unfolding js_round_is_round[symmetric] using hi by (rule js_round_mono)
  have "(of_int 15 :: rat) \<le> w + 1/2" using lo W b by simp
  then show 3: "15 \<le> js_round w" unfolding js_round_def by (simp only: le_floor_iff)
  have "w + 1/2 < of_int 101" using hi W b by simp
  then have "js_round w < 101" unfolding js_round_def by (simp only: floor_less_iff)
  then show 4: "js_round w \<le> 100" by simp
  have rW: "0 \<le> round W" "round W \<le> 100"
  proof -
    have "(of_int 0 :: rat) \<le> W + 1/2" using W by simp
    then show "0 \<le> round W" unfolding round_def by (simp only: le_floor_iff)
    have "W + 1/2 < of_int 101" using W by simp
    then have "round W < 101" unfolding round_def by (simp only: floor_less_iff)
    then show "round W \<le> 100" by simp
  qed
  then have sp: "spec_overallScore c m g s = round W"
    by (simp add: spec_overallScore_def clamp_score_def W_def)
  show "\<bar>js_round w - spec_overallScore c m g s\<bar> \<le> 1"
    unfolding sp js_round_def round_def using lo hi b by linarith
qed

lemma subscore_ranges:
  assumes "nonneg_facts cpu memory gpu"
  shows "0 \<le> calc_cpuScore cpu" "calc_cpuScore cpu \<le> 100"
    "0 \<le> calc_memoryScore memory" "calc_memoryScore memory \<le> 100"
    "30 \<le> calc_gpuScore gpu" "calc_gpuScore gpu \<le> 100"
  using assms calc_cpuScore_range[of cpu] calc_memoryScore_range[of memory]
    calc_gpuScore_range[of gpu]
  by (auto simp: nonneg_facts_def)

lemma calc_storageScore_range:
  "60 \<le> calc_storageScore storage" "calc_storageScore storage \<le> 100"
  using calc_storageScore_cases[of storage] by auto

lemma overallScore_unfold:
  "overallScore (calculatePerformanceScores cpu memory gpu storage) =
     js_round (weighted_sum (calc_cpuScore cpu) (calc_memoryScore memory)
                            (calc_gpuScore gpu) (calc_storageScore storage))"
  by (simp add: calculatePerformanceScores_def Let_def)

lemma calc_gpuScore_dedicated:
  assumes "gpuType g = dedicated" "0 \<le> vramGB g"
  shows "calc_gpuScore (Some g) = of_int (min 100 (60 + vramGB g * 4))"
proof (cases "vramGB g < 10")
  case True
  define v where "v = vramGB g"
  have v: "0 \<le> v" "v < 10" using assms True by (auto simp: v_def)
  have "fmul (of_int v) 4 = fl (of_int (v * 4))" by (simp add: fmul_def)
  also have "\<dots> = of_int (v * 4)" using v by (intro fl_of_int) auto
  finally have m: "fmul (of_int v) 4 = of_int (v * 4)" .
  have "fadd 60 (of_int (v * 4)) = fl (of_int (60 + v * 4))" by (simp add: fadd_def)
  also have "\<dots> = of_int (60 + v * 4)" using v by (intro fl_of_int) auto
  finally have a: "fadd 60 (of_int (v * 4)) = of_int (60 + v * 4)" .
  have "min 100 (fadd 60 (fmul (of_int v) 4)) = (of_int (min 100 (60 + v * 4)) :: rat)"
    unfolding m a by simp
  then show ?thesis
    unfolding calc_gpuScore_def v_def by (simp only: option.case assms(1) HOL.simp_thms if_True)
next
  case False
  define v where "v = vramGB g"
  have v: "10 \<le> v" using False by (simp add: v_def)
  have "fl 40 \<le> fl (of_int v * 4)" using v by (intro fl_mono) auto
  then have m: "40 \<le> fmul (of_int v) 4" by (simp add: fmul_def fl_numeral_exact)
  have "fl 100 \<le> fl (60 + fmul (of_int v) 4)" using m by (intro fl_mono) auto
  then have "100 \<le> fadd 60 (fmul (of_int v) 4)" by (simp add: fadd_def fl_numeral_exact)
  then show ?thesis using assms(1) v by (simp add: calc_gpuScore_def v_def[symmetric])
qed

lemma gpuScore_unfold:
  "gpuScore (calculatePerformanceScores cpu memory gpu storage) = js_round (calc_gpuScore gpu)"
  by (simp add: calculatePerformanceScores_def Let_def)

section \<open>Properties of the classifiers\<close>

lemma str_includes_sublist: "str_includes s t = sublist t s"
  by (induction s) (auto simp: sublist_Cons_right)

lemma table_lookup_chain:
  "table_lookup m v =
     (if str_includes m ''ga107m'' \<or> str_includes m ''3050 ti'' then Some 4
      else if str_includes m ''3060'' then Some 6
      else if str_includes m ''3070'' then Some 8
      else if str_includes m ''3080'' then Some 10
      else if str_includes m ''4060'' then Some 8
      else if str_includes m ''4070'' then Some 12
      else if str_includes m ''4080'' then Some 16
      else if str_includes m ''rx 6600'' then Some 8
      else if str_includes m ''rx 6700'' then Some 12
      else if str_includes m ''rx 6800'' then Some 16
      else if str_includes m ''arc'' then Some 6
      else if str_includes v ''nvidia'' \<and> str_includes m ''mobile'' then Some 4
      else if str_includes v ''nvidia'' \<and> str_includes m ''geforce'' then Some 4
      else None)"
  by (simp add: table_lookup_def vram_table_def)

lemma reported_gb_fallback:
  "(case reported_gb (c_vram gpu) of
      Some gb \<Rightarrow> gb
    | None \<Rightarrow> (case reported_gb (c_memoryTotal gpu) of Some gb \<Rightarrow> gb | None \<Rightarrow> 0))
   = sensor_fallback gpu"
  by (simp add: reported_gb_def sensor_fallback_def mb_to_gb_def split: option.splits)

lemma getGPUVRAM_table_then_sensor:
  "getGPUVRAM gpu =
     (case table_lookup (toLowerCase (or_empty (c_model gpu)))
                        (toLowerCase (or_empty (c_vendor gpu))) of
        Some gb \<Rightarrow> gb
      | None \<Rightarrow> sensor_fallback gpu)"
  unfolding getGPUVRAM_def Let_def table_lookup_chain
  by (simp add: reported_gb_fallback)

lemma lower_intel_uhd:
  "toLowerCase ''Intel UHD Graphics 630'' = ''intel uhd graphics 630''"
  "toLowerCase ''Intel'' = ''intel''"
  by code_simp+

lemma lower_rtx_3060:
  "toLowerCase ''NVIDIA GeForce RTX 3060'' = ''nvidia geforce rtx 3060''"
  "toLowerCase ''NVIDIA'' = ''nvidia''"
  by code_simp+

lemma mb_to_gb_1024: "mb_to_gb 1024 = 1"
  using fl_near[of 1 "- 52" 4503599627370496] js_round_of_int[of 1]
  by (simp add: mb_to_gb_def fdiv_def)

section \<open>Properties of the broadcast loop\<close>

lemma one_timer_start: "one_timer s \<Longrightarrow> one_timer (startRealtimeUpdates s)"
  by (auto simp: one_timer_def startRealtimeUpdates_def setInterval_def split: option.splits)

lemma one_timer_stop: "one_timer s \<Longrightarrow> one_timer (stopRealtimeUpdates s)"
  by (auto simp: one_timer_def stopRealtimeUpdates_def clearInterval_def split: option.splits)

lemma one_timer_close: "one_timer s \<Longrightarrow> one_timer (on_close ws s)"
  by (auto simp: one_timer_def on_close_def clearInterval_def Let_def split: option.splits)

lemma one_timer_step: "one_timer s \<Longrightarrow> one_timer (step s e)"
proof (cases e)
  case (Message ws msg)
  assume "one_timer s"
  then show ?thesis using Message 
    by (cases msg) (auto simp: handleWebSocketMessage_def intro: one_timer_start one_timer_stop)
next
  case (StatsResolved r)
  assume "one_timer s"
  then show ?thesis using StatsResolved
    by (auto simp: one_timer_def broadcast_def split: option.splits)
qed (auto simp: one_timer_start one_timer_stop one_timer_close, auto simp: one_timer_def on_connection_def)

lemma one_timer_run: "one_timer s \<Longrightarrow> one_timer (run s es)"
  unfolding run_def by (induction es arbitrary: s) (auto intro: one_timer_step)

lemma one_timer_new: "one_timer new_ApiServer"
  by (simp add: one_timer_def new_ApiServer_def)

lemma start_funpow:
  assumes "one_timer s"
  shows "\<exists>t. timers ((startRealtimeUpdates ^^ Suc n) s) = [(t, 2000)]
     \<and> realtimeInterval ((startRealtimeUpdates ^^ Suc n) s) = Some t"
proof (induction n)
  case 0
  show ?case using assms
    by (auto simp: one_timer_def startRealtimeUpdates_def setInterval_def split: option.splits)
next
  case (Suc n)
  then show ?case by (auto simp: startRealtimeUpdates_def)
qed

lemma idle_step:
  assumes "timers s = []" "realtimeInterval s = None" "\<not> starts e"
  shows "timers (step s e) = [] \<and> realtimeInterval (step s e) = None
    \<and> in_flight (step s e) \<le> in_flight s
    \<and> (in_flight s = 0 \<longrightarrow> delivered (step s e) = delivered s)"
proof (cases e)
  case (Message ws msg)
  then show ?thesis using assms
    by (cases msg) (auto simp: handleWebSocketMessage_def stopRealtimeUpdates_def starts_def)
next
  case (Close ws)
  then show ?thesis using assms by (auto simp: on_close_def Let_def)
next
  case (StatsResolved r)
  then show ?thesis using assms by (auto simp: broadcast_def split: option.splits)
qed (use assms in \<open>auto simp: on_connection_def stopRealtimeUpdates_def\<close>)

lemma idle_run:
  assumes "timers s = []" "realtimeInterval s = None" "\<not> list_ex starts es"
  shows "timers (run s es) = [] \<and> realtimeInterval (run s es) = None
    \<and> in_flight (run s es) \<le> in_flight s
    \<and> (in_flight s = 0 \<longrightarrow> delivered (run s es) = delivered s)"
  using assms
proof (induction es arbitrary: s)
  case Nil
  then show ?case by (simp add: run_def)
next
  case (Cons e es)
  from Cons.prems have e: "\<not> starts e" and es: "\<not> list_ex starts es" by auto
  note st = idle_step[OF Cons.prems(1,2) e]
  from st have "timers (step s e) = []" "realtimeInterval (step s e) = None" by auto
  note ih = Cons.IH[OF this es]
  have r: "run s (e # es) = run (step s e) es" by (simp add: run_def)
  show ?case unfolding r using st ih by auto
qed

lemma last_close:
  assumes "one_timer s" "clients s = [ws]"
  shows "timers (on_close ws s) = [] \<and> realtimeInterval (on_close ws s) = None
    \<and> clients (on_close ws s) = [] \<and> in_flight (on_close ws s) = in_flight s
    \<and> delivered (on_close ws s) = delivered s"
  using assms
  by (auto simp: one_timer_def on_close_def clearInterval_def Let_def split: option.splits)

section \<open>Properties of the full analysis\<close>

lemma bind_result_first:
  assumes "error_of r @ rest = e # es"
    and "\<And>x. r = Inr x \<Longrightarrow> rest = e # es \<Longrightarrow> f x = Inl e"
  shows "bind_result r f = Inl e"
  using assms by (cases r) (auto simp: error_of_def bind_result_def)

lemma bind_result_last:
  assumes "error_of r = e # es"
  shows "bind_result r f = Inl e"
  using assms by (cases r) (auto simp: error_of_def bind_result_def)

lemma bind_result_ok:
  assumes "error_of r @ rest = []"
    and "\<And>x. r = Inr x \<Longrightarrow> rest = [] \<Longrightarrow> \<exists>a. f x = Inr a"
  shows "\<exists>a. bind_result r f = Inr a"
  using assms by (cases r) (auto simp: error_of_def bind_result_def)

lemma bind_result_ok_last:
  assumes "error_of r = []"
    and "\<And>x. r = Inr x \<Longrightarrow> \<exists>a. f x = Inr a"
  shows "\<exists>a. bind_result r f = Inr a"
  using assms by (cases r) (auto simp: error_of_def bind_result_def)

lemma first_rejection_Some:
  "first_rejection env qs = Some e \<Longrightarrow> \<exists>q\<in>set qs. rejection_of env q = Some e"
  by (induction qs) (auto split: option.splits)

lemma first_rejection_None:
  "(first_rejection env qs = None) = (\<forall>q\<in>set qs. rejection_of env q = None)"
  by (induction qs) (auto split: option.splits)

lemma first_rejection_arrives_first:
  assumes "rejection_of env q = Some e" and "\<forall>p\<in>set pre. rejection_of env p = None"
  shows "first_rejection env (pre @ q # post) = Some e"
  using assms by (induction pre) auto

lemma rejection_error_of: "(rejection r = Some e) = (error_of r = [e])"
  by (cases r) (auto simp: rejection_def error_of_def)

lemma rejection_None_error_of: "(rejection r = None) = (error_of r = [])"
  by (cases r) (auto simp: rejection_def error_of_def)

lemma rejection_of_parallel:
  "rejection_of env q = Some e \<Longrightarrow> e \<in> set (parallel_rejections env)"
  by (cases q) (auto simp: rejection_of_def parallel_rejections_def rejection_error_of)

lemma parallel_rejections_Nil:
  "(parallel_rejections env = []) = (\<forall>q. rejection_of env q = None)"
proof
  assume "parallel_rejections env = []"
  then show "\<forall>q. rejection_of env q = None"
    using rejection_of_parallel[of env] by (metis empty_iff list.set(1) option.exhaust)
next
  assume a: "\<forall>q. rejection_of env q = None"
  have "rejection_of env si_cpu = None" "rejection_of env si_mem = None"
    "rejection_of env si_graphics = None" "rejection_of env si_osInfo = None"
    "rejection_of env si_system = None" "rejection_of env si_diskLayout = None"
    "rejection_of env si_networkInterfaces = None" "rejection_of env si_battery = None"
    using a by blast+
  then show "parallel_rejections env = []"
    by (simp add: rejection_of_def parallel_rejections_def rejection_None_error_of)
qed

lemma Promise_all_rejects:
  "first_rejection env (arrival env @ promise_array) = Some e \<Longrightarrow> Promise_all env = Inl e"
  by (simp add: Promise_all_def)

lemma Promise_all_fulfils:
  assumes "parallel_rejections env = []"
  shows "\<exists>v. Promise_all env = Inr v"
proof -
  have "first_rejection env (arrival env @ promise_array) = None"
    using assms by (simp add: first_rejection_None parallel_rejections_Nil)
  moreover have "\<exists>v.
      bind_result (q_cpu env) (\<lambda>cpu.
      bind_result (q_mem env) (\<lambda>memTotal.
      bind_result (q_graphics env) (\<lambda>controllers.
      bind_result (q_osInfo env) (\<lambda>platform.
      bind_result (q_system env) (\<lambda>_.
      bind_result (q_diskLayout env) (\<lambda>diskLayout.
      bind_result (q_networkInterfaces env) (\<lambda>_.
      bind_result (q_battery env) (\<lambda>_.
        Inr (cpu, memTotal, controllers, platform, diskLayout))))))))) = Inr v"
    using assms unfolding parallel_rejections_def
    apply -
    apply (erule bind_result_ok)+
    apply (erule bind_result_ok_last)
    apply simp
    done
  ultimately show ?thesis by (simp add: Promise_all_def)
qed

lemma Promise_all_cases:
  "(\<exists>e\<in>set (parallel_rejections env). Promise_all env = Inl e)
   \<or> (parallel_rejections env = [] \<and> (\<exists>v. Promise_all env = Inr v))"
proof (cases "first_rejection env (arrival env @ promise_array)")
  case None
  then have "parallel_rejections env = []"
    by (simp add: first_rejection_None parallel_rejections_Nil promise_array_def)
       (metis query.exhaust)
  then show ?thesis using Promise_all_fulfils by blast
next
  case (Some e)
  then show ?thesis
    using first_rejection_Some[OF Some] rejection_of_parallel Promise_all_rejects by blast
qed

lemma try_detect_parallel_rejection:
  "Promise_all env = Inl e \<Longrightarrow> try_detect env = Inl e"
  by (simp add: try_detect_def bind_result_def)

lemma try_detect_sequential_rejection:
  assumes "parallel_rejections env = []" and "sequential_rejections env = e # es"
  shows "try_detect env = Inl e"
proof -
  obtain v where v: "Promise_all env = Inr v" using Promise_all_fulfils[OF assms(1)] by blast
  obtain cpu memTotal controllers platform diskLayout
    where "v = (cpu, memTotal, controllers, platform, diskLayout)" by (cases v) auto
  then have "try_detect env =
     bind_result (q_currentLoad env) (\<lambda>_.
     bind_result (q_cpuTemperature env) (\<lambda>_.
     bind_result (q_memLayout env) (\<lambda>memLayout.
       Inr (build_analysis cpu memTotal controllers platform diskLayout memLayout
              (q_fsSize env) (clock env)))))"
    using v by (simp add: try_detect_def bind_result_def)
  moreover have "\<dots> = Inl e"
    using assms(2) unfolding sequential_rejections_def
    apply -
    apply (erule bind_result_first)+
    apply (erule bind_result_last)
    done
  ultimately show ?thesis by simp
qed

lemma try_detect_no_rejection:
  assumes "rejections env = []"
  shows "\<exists>a. try_detect env = Inr a"
proof -
  have p: "parallel_rejections env = []" and q: "sequential_rejections env = []"
    using assms by (simp_all add: rejections_def)
  obtain v where v: "Promise_all env = Inr v" using Promise_all_fulfils[OF p] by blast
  obtain cpu memTotal controllers platform diskLayout
    where "v = (cpu, memTotal, controllers, platform, diskLayout)" by (cases v) auto
  then have "try_detect env =
     bind_result (q_currentLoad env) (\<lambda>_.
     bind_result (q_cpuTemperature env) (\<lambda>_.
     bind_result (q_memLayout env) (\<lambda>memLayout.
       Inr (build_analysis cpu memTotal controllers platform diskLayout memLayout
              (q_fsSize env) (clock env)))))"
    using v by (simp add: try_detect_def bind_result_def)
  moreover have "\<exists>a. \<dots> = Inr a"
    using q unfolding sequential_rejections_def
    apply -
    apply (erule bind_result_ok)+
    apply (erule bind_result_ok_last)
    apply simp
    done
  ultimately show ?thesis by simp
qed

lemma try_detect_rejection:
  assumes "rejections env \<noteq> []"
  shows "\<exists>e\<in>set (rejections env). try_detect env = Inl e"
proof -
  consider e where "e \<in> set (parallel_rejections env)" "Promise_all env = Inl e"
    | "parallel_rejections env = []"
    using Promise_all_cases[of env] by blast
  then show ?thesis
  proof cases
    case 1
    then show ?thesis using try_detect_parallel_rejection by (auto simp: rejections_def)
  next
    case 2
    then obtain e es where s: "sequential_rejections env = e # es"
      using assms by (cases "sequential_rejections env") (auto simp: rejections_def)
    then show ?thesis
      using try_detect_sequential_rejection[OF 2 s] by (auto simp: rejections_def)
  qed
qed

lemma detectHardware_cases:
  "(\<exists>a. detectHardware this env
          = (Inr a, this\<lparr>lastAnalysis := Some a, analysisTimestamp := Some (clock_stored env)\<rparr>))
   \<or> (\<exists>e. detectHardware this env = (Inl e, this))"
  by (cases "try_detect env") (auto simp: detectHardware_def)

lemma rejections_failing:
  "rejections failing_inventory
     = [Error ''graphics query timed out'', Error ''no battery information'']"
  by (simp add: rejections_def parallel_rejections_def sequential_rejections_def
        failing_inventory_def sample_inventory_def error_of_def)

lemma rejections_sample: "rejections sample_inventory = []"
  by (simp add: rejections_def parallel_rejections_def sequential_rejections_def
        sample_inventory_def error_of_def)

lemma sample_detector_cached:
  "\<exists>a. try_detect sample_inventory = Inr a \<and> lastAnalysis sample_detector = Some a"
proof -
  obtain a where "try_detect sample_inventory = Inr a"
    using try_detect_no_rejection[OF rejections_sample] by auto
  then show ?thesis by (simp add: sample_detector_def detectHardware_def)
qed

section \<open>Properties of the fingerprint\<close>

lemma gpu_insert_set: "set (gpu_insert x ys) = insert x (set ys)"
  by (induction ys) auto

lemma gpu_sort_set: "set (gpu_sort gs) = set gs"
  unfolding gpu_sort_def by (induction gs) (auto simp: gpu_insert_set)

lemma gpu_insert_length: "length (gpu_insert x ys) = Suc (length ys)"
  by (induction ys) auto

lemma gpu_sort_length: "length (gpu_sort gs) = length gs"
  unfolding gpu_sort_def by (induction gs) (auto simp: gpu_insert_length)

lemma gpuModel_gpu_of: "gpuModel (gpu_of c) \<noteq> []"
  by (simp add: gpu_of_def or_string_def split: option.splits)

lemma gpuInfo_of_models: "g \<in> set (gpuInfo_of cs) \<Longrightarrow> gpuModel g \<noteq> []"
  by (auto simp: gpuInfo_of_def gpu_sort_set gpuModel_gpu_of)

lemma gpuInfo_of_empty: "(gpuInfo_of cs = []) = (cs = [])"
  using gpu_sort_length[of "map gpu_of cs"] by (auto simp: gpuInfo_of_def)

lemma fingerprintData_canonical:
  "fingerprintData cpu memory (gpuInfo_of cs) os =
     canonical_string (logicalCores cpu) (totalMemoryGB memory)
       (map_option gpuModel (first_or_none (gpuInfo_of cs))) os"
proof (cases "gpuInfo_of cs")
  case Nil
  then show ?thesis
    by (simp add: fingerprintData_def canonical_string_def first_or_none_def or_string_def)
next
  case (Cons g gs)
  then have "gpuModel g \<noteq> []" using gpuInfo_of_models[of g cs] by simp
  with Cons show ?thesis
    by (simp add: fingerprintData_def canonical_string_def first_or_none_def or_string_def)
qed

lemma b64_alphabet_props:
  "length b64_alphabet = 64" "distinct b64_alphabet" "CHR ''='' \<notin> set b64_alphabet"
  by (simp_all add: b64_alphabet_def)

lemma b64_inj:
  assumes "n < 64" "m < 64" "b64 n = b64 m"
  shows "n = m"
  using assms b64_alphabet_props nth_eq_iff_index_eq[of b64_alphabet n m]
  by (simp add: b64_def)

lemma b64_not_pad: "b64 n \<noteq> CHR ''=''"
proof -
  have "b64_alphabet ! (n mod 64) \<in> set b64_alphabet"
    by (intro nth_mem) (simp add: b64_alphabet_props)
  then show ?thesis using b64_alphabet_props(3) by (auto simp: b64_def)
qed

lemma split_digits:
  fixes x x' p p' k :: nat
  assumes "p < k" "p' < k" "x * k + p = x' * k + p'"
  shows "x = x' \<and> p = p'"
proof -
  have "(x * k + p) div k = (x' * k + p') div k" "(x * k + p) mod k = (x' * k + p') mod k"
    using assms(3) by simp_all
  then show ?thesis using assms(1,2) by simp
qed

lemma div_mod_eqD:
  fixes a a' k :: nat
  assumes "a div k = a' div k" "a mod k = a' mod k"
  shows "a = a'"
  using assms by (metis div_mult_mod_eq)

lemma byte_parts:
  fixes a :: nat
  assumes "a < 256"
  shows "a div 4 < 64" "a mod 4 * 16 < 64" "a div 16 < 16" "a mod 16 * 4 < 64" "a div 64 < 4"
    "a mod 64 < 64" "a mod 4 < 4" "a mod 16 < 16"
  using assms by simp_all

lemma sextets1:
  fixes a a' :: nat
  assumes "a < 256" "a' < 256" "b64 (a div 4) = b64 (a' div 4)"
    "b64 (a mod 4 * 16) = b64 (a' mod 4 * 16)"
  shows "a = a'"
proof -
  have "a div 4 = a' div 4"
    using assms(3) byte_parts(1)[OF assms(1)] byte_parts(1)[OF assms(2)] by (intro b64_inj)
  moreover have "a mod 4 * 16 = a' mod 4 * 16"
    using assms(4) byte_parts(2)[OF assms(1)] byte_parts(2)[OF assms(2)] by (intro b64_inj)
  then have "a mod 4 = a' mod 4" by simp
  ultimately show ?thesis by (rule div_mod_eqD)
qed

lemma sextets2:
  fixes a a' b b' :: nat
  assumes "a < 256" "a' < 256" "b < 256" "b' < 256"
    "b64 (a div 4) = b64 (a' div 4)"
    "b64 (a mod 4 * 16 + b div 16) = b64 (a' mod 4 * 16 + b' div 16)"
    "b64 (b mod 16 * 4) = b64 (b' mod 16 * 4)"
  shows "a = a' \<and> b = b'"
proof -
  note pa = byte_parts[OF assms(1)] and pa' = byte_parts[OF assms(2)]
    and pb = byte_parts[OF assms(3)] and pb' = byte_parts[OF assms(4)]
  have 1: "a div 4 = a' div 4" using assms(5) pa(1) pa'(1) by (intro b64_inj)
  have "a mod 4 * 16 + b div 16 < 64" "a' mod 4 * 16 + b' div 16 < 64"
    using pa(7) pa'(7) pb(3) pb'(3) by linarith+
  then have "a mod 4 * 16 + b div 16 = a' mod 4 * 16 + b' div 16"
    using assms(6) by (intro b64_inj)
  then have 2: "a mod 4 = a' mod 4 \<and> b div 16 = b' div 16"
    using pb(3) pb'(3) by (intro split_digits)
  have "b mod 16 * 4 = b' mod 16 * 4" using assms(7) pb(4) pb'(4) by (intro b64_inj)
  then have 3: "b mod 16 = b' mod 16" by simp
  from 1 2 3 show ?thesis by (auto intro: div_mod_eqD)
qed

lemma sextets3:
  fixes a a' b b' c c' :: nat
  assumes "a < 256" "a' < 256" "b < 256" "b' < 256" "c < 256" "c' < 256"
    "b64 (a div 4) = b64 (a' div 4)"
    "b64 (a mod 4 * 16 + b div 16) = b64 (a' mod 4 * 16 + b' div 16)"
    "b64 (b mod 16 * 4 + c div 64) = b64 (b' mod 16 * 4 + c' div 64)"
    "b64 (c mod 64) = b64 (c' mod 64)"
  shows "a = a' \<and> b = b' \<and> c = c'"
proof -
  note pa = byte_parts[OF assms(1)] and pa' = byte_parts[OF assms(2)]
    and pb = byte_parts[OF assms(3)] and pb' = byte_parts[OF assms(4)]
    and pc = byte_parts[OF assms(5)] and pc' = byte_parts[OF assms(6)]
  have 1: "a div 4 = a' div 4" using assms(7) pa(1) pa'(1) by (intro b64_inj)
  have "a mod 4 * 16 + b div 16 < 64" "a' mod 4 * 16 + b' div 16 < 64"
    using pa(7) pa'(7) pb(3) pb'(3) by linarith+
  then have "a mod 4 * 16 + b div 16 = a' mod 4 * 16 + b' div 16"
    using assms(8) by (intro b64_inj)
  then have 2: "a mod 4 = a' mod 4 \<and> b div 16 = b' div 16"
    using pb(3) pb'(3) by (intro split_digits)
  have "b mod 16 * 4 + c div 64 < 64" "b' mod 16 * 4 + c' div 64 < 64"
    using pb(8) pb'(8) pc(5) pc'(5) by linarith+
  then have "b mod 16 * 4 + c div 64 = b' mod 16 * 4 + c' div 64"
    using assms(9) by (intro b64_inj)
  then have 3: "b mod 16 = b' mod 16 \<and> c div 64 = c' div 64"
    using pc(5) pc'(5) by (intro split_digits)
  have 4: "c mod 64 = c' mod 64" using assms(10) pc(6) pc'(6) by (intro b64_inj)
  from 1 2 3 4 show ?thesis by (auto intro: div_mod_eqD)
qed

lemma base64_inj:
  assumes "\<forall>x \<in> set xs. x < 256" "\<forall>y \<in> set ys. y < 256" "base64 xs = base64 ys"
  shows "xs = ys"
  using assms
proof (induction xs arbitrary: ys rule: base64.induct)
  case 1
  then show ?case by (cases ys rule: base64.cases) simp_all
next
  case (2 a)
  show ?case
  proof (cases ys rule: base64.cases)
    case 1
    with "2.prems" show ?thesis by simp
  next
    case (2 a')
    with "2.prems" have "a = a'" by (intro sextets1) simp_all
    with 2 show ?thesis by simp
  next
    case (3 a' b')
    with "2.prems"(3) have "CHR ''='' = b64 (b' mod 16 * 4)" by simp
    then show ?thesis using b64_not_pad by metis
  next
    case (4 a' b' c' bs')
    with "2.prems"(3) have "CHR ''='' = b64 (b' mod 16 * 4 + c' div 64)" by simp
    then show ?thesis using b64_not_pad by metis
  qed
next
  case (3 a b)
  show ?case
  proof (cases ys rule: base64.cases)
    case 1
    with "3.prems" show ?thesis by simp
  next
    case (2 a')
    with "3.prems"(3) have "b64 (b mod 16 * 4) = CHR ''=''" by simp
    then show ?thesis using b64_not_pad by metis
  next
    case (3 a' b')
    with "3.prems" have "a = a' \<and> b = b'" by (intro sextets2) simp_all
    with 3 show ?thesis by simp
  next
    case (4 a' b' c' bs')
    with "3.prems"(3) have "CHR ''='' = b64 (c' mod 64)" by simp
    then show ?thesis using b64_not_pad by metis
  qed
next
  case (4 a b c bs)
  show ?case
  proof (cases ys rule: base64.cases)
    case 1
    with "4.prems" show ?thesis by simp
  next
    case (2 a')
    with "4.prems"(3) have "b64 (b mod 16 * 4 + c div 64) = CHR ''=''" by simp
    then show ?thesis using b64_not_pad by metis
  next
    case (3 a' b')
    with "4.prems"(3) have "b64 (c mod 64) = CHR ''=''" by simp
    then show ?thesis using b64_not_pad by metis
  next
    case (4 a' b' c' bs')
    with "4.prems"(3) have eq: "b64 (a div 4) = b64 (a' div 4)"
      "b64 (a mod 4 * 16 + b div 16) = b64 (a' mod 4 * 16 + b' div 16)"
      "b64 (b mod 16 * 4 + c div 64) = b64 (b' mod 16 * 4 + c' div 64)"
      "b64 (c mod 64) = b64 (c' mod 64)" "base64 bs = base64 bs'"
      by simp_all
    from 4 "4.prems"(1,2) have bnd: "a < 256" "a' < 256" "b < 256" "b' < 256" "c < 256" "c' < 256"
      "\<forall>x \<in> set bs. x < 256" "\<forall>y \<in> set bs'. y < 256"
      by simp_all
    have "a = a' \<and> b = b' \<and> c = c'" using bnd(1-6) eq(1-4) by (rule sextets3)
    moreover have "bs = bs'" using bnd(7,8) eq(5) by (rule "4.IH")
    ultimately show ?thesis using 4 by simp
  qed
qed

lemma Buffer_from_bytes: "\<forall>x \<in> set (Buffer_from s). x < 256"
  by (auto simp: Buffer_from_def)

lemma Buffer_from_inj: "Buffer_from s = Buffer_from t \<Longrightarrow> s = t"
  unfolding Buffer_from_def by (rule map_injective) (auto simp: inj_on_def)

lemma bind_result_InrE:
  assumes "bind_result r f = Inr a"
  obtains x where "r = Inr x" "f x = Inr a"
  using assms by (cases r) (auto simp: bind_result_def)

lemma Promise_all_InrD:
  assumes "Promise_all env = Inr (cpu, memTotal, cs, platform, disks)"
  shows "q_graphics env = Inr cs"
proof -
  have "bind_result (q_cpu env) (\<lambda>cpu.
          bind_result (q_mem env) (\<lambda>memTotal.
          bind_result (q_graphics env) (\<lambda>controllers.
          bind_result (q_osInfo env) (\<lambda>platform.
          bind_result (q_system env) (\<lambda>_.
          bind_result (q_diskLayout env) (\<lambda>diskLayout.
          bind_result (q_networkInterfaces env) (\<lambda>_.
          bind_result (q_battery env) (\<lambda>_.
            Inr (cpu, memTotal, controllers, platform, diskLayout)))))))))
        = Inr (cpu, memTotal, cs, platform, disks)"
    using assms by (auto simp: Promise_all_def split: option.splits)
  then show ?thesis
    apply (elim bind_result_InrE)
    apply (simp only: sum.inject prod.inject)
    done
qed

lemma try_detect_InrD:
  assumes "try_detect env = Inr a"
  shows "\<exists>cpu memTotal cs platform disks memLayout.
           q_graphics env = Inr cs
           \<and> a = build_analysis cpu memTotal cs platform disks memLayout (q_fsSize env) (clock env)"
proof -
  obtain v where v: "Promise_all env = Inr v"
    and r: "(case v of (cpu, memTotal, controllers, platform, diskLayout) \<Rightarrow>
         bind_result (q_currentLoad env) (\<lambda>_.
         bind_result (q_cpuTemperature env) (\<lambda>_.
         bind_result (q_memLayout env) (\<lambda>memLayout.
           Inr (build_analysis cpu memTotal controllers platform diskLayout memLayout
                  (q_fsSize env) (clock env)))))) = Inr a"
    using assms unfolding try_detect_def by (elim bind_result_InrE)
  obtain cpu memTotal cs platform disks where t: "v = (cpu, memTotal, cs, platform, disks)"
    by (cases v) auto
  have g: "q_graphics env = Inr cs" using Promise_all_InrD v t by blast
  have "bind_result (q_currentLoad env) (\<lambda>_.
         bind_result (q_cpuTemperature env) (\<lambda>_.
         bind_result (q_memLayout env) (\<lambda>memLayout.
           Inr (build_analysis cpu memTotal cs platform disks memLayout
                  (q_fsSize env) (clock env))))) = Inr a"
    using r t by simp
  then have "\<exists>memLayout.
      a = build_analysis cpu memTotal cs platform disks memLayout (q_fsSize env) (clock env)"
    apply (elim bind_result_InrE)
    apply (simp only: sum.inject)
    apply blast
    done
  then show ?thesis using g by blast
qed

lemma build_analysis_fingerprint:
  "hardwareFingerprint (build_analysis cpu memTotal cs platform disks memLayout fsSize now)
     = hardwareFingerprint_of
         (spec_cpu (build_analysis cpu memTotal cs platform disks memLayout fsSize now))
         (spec_memory (build_analysis cpu memTotal cs platform disks memLayout fsSize now))
         (gpuInfo_of cs)
         (spec_os (build_analysis cpu memTotal cs platform disks memLayout fsSize now))"
  by (simp add: build_analysis_def Let_def)

lemma first_gpu_None: "(first_or_none (gpuInfo_of cs) = None) = (cs = [])"
  using gpuInfo_of_empty[of cs] by (cases "gpuInfo_of cs") (auto simp: first_or_none_def)

lemma digits_examples: "digits 8 = ''8''" "digits 32 = ''32''" "digits 4 = ''4''"
  by code_simp+

lemma js_toString_examples:
  "js_toString 8 = ''8''" "js_toString 32 = ''32''" "js_toString 4 = ''4''"
  by (simp_all add: js_toString_def Number_toString_def digits_examples del: digits.simps)

text \<open>
  The conversion beyond \<open>2 ^ 53\<close>: the exponent notation from \<open>10 ^ 21\<close> on, also for the
  Number nearest to \<open>10 ^ 23\<close>, which is below it, and the 16 digits that denote \<open>2 ^ 60\<close>.
\<close>

named_theorems fl_int \<open>values of the rounding at integers\<close>

lemma fl_int_1 [fl_int]: "fl 1000000000000000000000 = 1000000000000000000000"
  using fl_near[of 1000000000000000000000 "17" 7629394531250000] by simp

lemma fl_int_2 [fl_int]: "fl 2000000000000000000000 = 2000000000000000000000"
  using fl_near[of 2000000000000000000000 "18" 7629394531250000] by simp

lemma fl_int_3 [fl_int]: "fl 1500000000000000000000 = 1500000000000000000000"
  using fl_near[of 1500000000000000000000 "18" 5722045898437500] by simp

lemma fl_int_4 [fl_int]: "fl 1600000000000000000000 = 1600000000000000000000"
  using fl_near[of 1600000000000000000000 "18" 6103515625000000] by simp

lemma fl_int_5 [fl_int]: "fl 100000000000000000000000 = 99999999999999991611392"
  using fl_tie[of 100000000000000000000000 "24" 5960464477539062] by simp

lemma fl_int_6 [fl_int]: "fl 99999999999999991611392 = 99999999999999991611392"
  using fl_near[of 99999999999999991611392 "24" 5960464477539062] by simp

lemma fl_int_7 [fl_int]: "fl 90000000000000000000000 = 89999999999999995805696"
  using fl_near[of 90000000000000000000000 "24" 5364418029785156] by simp

lemma fl_int_8 [fl_int]: "fl 1152921504606846976 = 1152921504606846976"
  using fl_near[of 1152921504606846976 "8" 4503599627370496] by simp

lemma fl_int_9 [fl_int]: "fl 1000000000000000000 = 1000000000000000000"
  using fl_near[of 1000000000000000000 "7" 7812500000000000] by simp

lemma fl_int_10 [fl_int]: "fl 2000000000000000000 = 2000000000000000000"
  using fl_near[of 2000000000000000000 "8" 7812500000000000] by simp

lemma fl_int_11 [fl_int]: "fl 1100000000000000000 = 1100000000000000000"
  using fl_near[of 1100000000000000000 "7" 8593750000000000] by simp

lemma fl_int_12 [fl_int]: "fl 1200000000000000000 = 1200000000000000000"
  using fl_near[of 1200000000000000000 "8" 4687500000000000] by simp

lemma fl_int_13 [fl_int]: "fl 1150000000000000000 = 1150000000000000000"
  using fl_near[of 1150000000000000000 "7" 8984375000000000] by simp

lemma fl_int_14 [fl_int]: "fl 1160000000000000000 = 1160000000000000000"
  using fl_near[of 1160000000000000000 "8" 4531250000000000] by simp

lemma fl_int_15 [fl_int]: "fl 1152000000000000000 = 1152000000000000000"
  using fl_near[of 1152000000000000000 "7" 9000000000000000] by simp

lemma fl_int_16 [fl_int]: "fl 1153000000000000000 = 1153000000000000000"
  using fl_near[of 1153000000000000000 "8" 4503906250000000] by simp

lemma fl_int_17 [fl_int]: "fl 1152900000000000000 = 1152900000000000000"
  using fl_near[of 1152900000000000000 "7" 9007031250000000] by simp

lemma fl_int_18 [fl_int]: "fl 1152920000000000000 = 1152920000000000000"
  using fl_near[of 1152920000000000000 "7" 9007187500000000] by simp

lemma fl_int_19 [fl_int]: "fl 1152930000000000000 = 1152930000000000000"
  using fl_near[of 1152930000000000000 "8" 4503632812500000] by simp

lemma fl_int_20 [fl_int]: "fl 1152921000000000000 = 1152921000000000000"
  using fl_near[of 1152921000000000000 "7" 9007195312500000] by simp

lemma fl_int_21 [fl_int]: "fl 1152922000000000000 = 1152922000000000000"
  using fl_near[of 1152922000000000000 "8" 4503601562500000] by simp

lemma fl_int_22 [fl_int]: "fl 1152921500000000000 = 1152921500000000000"
  using fl_near[of 1152921500000000000 "7" 9007199218750000] by simp

lemma fl_int_23 [fl_int]: "fl 1152921600000000000 = 1152921600000000000"
  using fl_near[of 1152921600000000000 "8" 4503600000000000] by simp

lemma fl_int_24 [fl_int]: "fl 1152921510000000000 = 1152921510000000000"
  using fl_near[of 1152921510000000000 "8" 4503599648437500] by simp

lemma fl_int_25 [fl_int]: "fl 1152921504000000000 = 1152921504000000000"
  using fl_near[of 1152921504000000000 "7" 9007199250000000] by simp

lemma fl_int_26 [fl_int]: "fl 1152921505000000000 = 1152921505000000000"
  using fl_near[of 1152921505000000000 "8" 4503599628906250] by simp

lemma fl_int_27 [fl_int]: "fl 1152921504600000000 = 1152921504600000000"
  using fl_near[of 1152921504600000000 "7" 9007199254687500] by simp

lemma fl_int_28 [fl_int]: "fl 1152921504700000000 = 1152921504700000000"
  using fl_near[of 1152921504700000000 "8" 4503599627734375] by simp

lemma fl_int_29 [fl_int]: "fl 1152921504610000000 = 1152921504609999872"
  using fl_tie[of 1152921504610000000 "8" 4503599627382812] by simp

lemma fl_int_30 [fl_int]: "fl 1152921504606000000 = 1152921504606000000"
  using fl_near[of 1152921504606000000 "7" 9007199254734375] by simp

lemma fl_int_31 [fl_int]: "fl 1152921504607000000 = 1152921504607000064"
  using fl_near[of 1152921504607000000 "8" 4503599627371094] by simp

lemma fl_int_32 [fl_int]: "fl 1152921504606800000 = 1152921504606800000"
  using fl_near[of 1152921504606800000 "7" 9007199254740625] by simp

lemma fl_int_33 [fl_int]: "fl 1152921504606900000 = 1152921504606899968"
  using fl_near[of 1152921504606900000 "8" 4503599627370703] by simp

lemma fl_int_34 [fl_int]: "fl 1152921504606840000 = 1152921504606840064"
  using fl_tie[of 1152921504606840000 "7" 9007199254740937] by simp

lemma fl_int_35 [fl_int]: "fl 1152921504606850000 = 1152921504606850048"
  using fl_near[of 1152921504606850000 "8" 4503599627370508] by simp

lemma fl_int_36 [fl_int]: "fl 1152921504606846000 = 1152921504606845952"
  using fl_near[of 1152921504606846000 "7" 9007199254740984] by simp

lemma fl_int_37 [fl_int]: "fl 1152921504606847000 = 1152921504606846976"
  using fl_near[of 1152921504606847000 "8" 4503599627370496] by simp

lemma digits_large:
  "length (digits 1000000000000000000000) = 22"
  "digits 1 = ''1''"
  "digits 21 = ''21''"
  "length (digits 1500000000000000000000) = 22"
  "digits 15 = ''15''"
  "length (digits 99999999999999991611392) = 23"
  "digits 23 = ''23''"
  "length (digits 1152921504606846976) = 19"
  "digits 1152921504606847 = ''1152921504606847''"
  "replicate 3 (CHR ''0'') = ''000''"
  by code_simp+

lemma strip_zeros_large:
  "strip_zeros 1 21 = (1, 21)"
  "strip_zeros 15 20 = (15, 20)"
  "strip_zeros 10 22 = (1, 23)"
  "strip_zeros 1152921504606847 3 = (1152921504606847, 3)"
  by code_simp+

lemma countdown:
  "rev [0..<19] = [18, 17, 16, 15, 14, 13, 12, 11, 10, 9, 8, 7, 6, 5, 4, 3, 2, 1, 0]"
  "rev [0..<22] = [21, 20, 19, 18, 17, 16, 15, 14, 13, 12, 11, 10, 9, 8, 7, 6, 5, 4, 3, 2, 1,
     0]"
  "rev [0..<23] = [22, 21, 20, 19, 18, 17, 16, 15, 14, 13, 12, 11, 10, 9, 8, 7, 6, 5, 4, 3, 2,
     1, 0]"
  by code_simp+

lemma shortest_at_large:
  "shortest_at 1000000000000000000000 21 = Some (1, 21)"
  "shortest_at 1500000000000000000000 21 = None"
  "shortest_at 1500000000000000000000 20 = Some (15, 20)"
  "shortest_at 99999999999999991611392 22 = Some (1, 23)"
  "shortest_at 1152921504606846976 18 = None"
  "shortest_at 1152921504606846976 17 = None"
  "shortest_at 1152921504606846976 16 = None"
  "shortest_at 1152921504606846976 15 = None"
  "shortest_at 1152921504606846976 14 = None"
  "shortest_at 1152921504606846976 13 = None"
  "shortest_at 1152921504606846976 12 = None"
  "shortest_at 1152921504606846976 11 = None"
  "shortest_at 1152921504606846976 10 = None"
  "shortest_at 1152921504606846976 9 = None"
  "shortest_at 1152921504606846976 8 = None"
  "shortest_at 1152921504606846976 7 = None"
  "shortest_at 1152921504606846976 6 = None"
  "shortest_at 1152921504606846976 5 = None"
  "shortest_at 1152921504606846976 4 = None"
  "shortest_at 1152921504606846976 3 = Some (1152921504606847, 3)"
  by (simp_all add: shortest_at_def rounds_to_def fl_int Let_def strip_zeros_large
        del: strip_zeros.simps)

lemma shortest_large:
  "shortest 1000000000000000000000 = (1, 21)"
  "shortest 1500000000000000000000 = (15, 20)"
  "shortest 99999999999999991611392 = (1, 23)"
  "shortest 1152921504606846976 = (1152921504606847, 3)"
  by (simp_all add: shortest_def digits_large countdown shortest_at_large del: digits.simps)

lemma js_toString_large:
  "js_toString 1000000000000000000000 = ''1e+21''"
  "js_toString 1500000000000000000000 = ''1.5e+21''"
  "js_toString 100000000000000000000000 = ''1e+23''"
  "js_toString 1152921504606846976 = ''1152921504606847000''"
  by (simp_all add: js_toString_def Number_toString_def fl_int shortest_large digits_large
        del: digits.simps)

lemma base64_examples:
  "take 16 (base64 (Buffer_from ''8-32-NVIDIA GeForce RTX 3070-linux'')) = ''OC0zMi1OVklESUEg''"
  "take 16 (base64 (Buffer_from ''4-8-integrated-darwin'')) = ''NC04LWludGVncmF0''"
  by code_simp+

lemma bytes_to_GB_32: "bytes_to_GB 34359738368 = 32"
proof -
  have "fmul 1024 1024 = 1048576" using fl_of_int[of 1048576] by (simp add: fmul_def)
  moreover have "fmul 1048576 1024 = 1073741824"
    using fl_of_int[of 1073741824] by (simp add: fmul_def)
  moreover have "fdiv 34359738368 1073741824 = 32" using fl_of_int[of 32] by (simp add: fdiv_def)
  ultimately show ?thesis using js_round_of_int[of 32] by (simp add: bytes_to_GB_def)
qed

lemma try_detect_sample:
  "try_detect sample_inventory =
     Inr (build_analysis
            \<lparr>cores = 8, speed = Some 3, cache_l1d = js_num 262144, cache_l1i = js_num 262144,
              cache_l2 = js_num 4194304, cache_l3 = js_num 12058624\<rparr>
            34359738368
            [\<lparr>c_model = Some ''NVIDIA GeForce RTX 3070'', c_vendor = Some ''NVIDIA'',
               c_vram = Some 8192, c_memoryTotal = None\<rparr>]
            ''linux'' [\<lparr>disk_type = ''SSD'', disk_size = 549755813888\<rparr>] [Some 3200]
            (Inr [274877906944]) ''2024-05-01T10:00:00.000Z'')"
  by (simp add: try_detect_def Promise_all_def promise_array_def rejection_of_def rejection_def
        sample_inventory_def bind_result_def)

lemma gpuInfo_of_single: "gpuInfo_of [c] = [gpu_of c]"
  by (simp add: gpuInfo_of_def gpu_sort_def)

section \<open>Theorems\<close>

text \<open>
  C1 (as amended): for facts with non-negative fields, the overall score is
  \<^verbatim>\<open>Math.round\<close> (round half up) of the weighted sum 0.35 cpu + 0.25 memory + 0.30 gpu +
  0.10 storage of the unrounded sub-scores of section 4.3, the four products and three sums
  being double operations carried out from the left.  It lies in 0..100, so no clamp is
  applied; it lies between the round-half-up values of the exact weighted sum minus and plus
  \<open>407 * eps\<close>, and so differs from the round-half-up value of the exact sum by at most 1.
  For the facts of the end-to-end example the sub-scores are 78, 100, 92, 85 and the overall
  score is 88.
\<close>

theorem overallScore_rounded_double_sum:
  assumes "nonneg_facts cpu memory gpu"
  shows "(let c = calc_cpuScore cpu; m = calc_memoryScore memory;
              g = calc_gpuScore gpu; s = calc_storageScore storage;
              overall = overallScore (calculatePerformanceScores cpu memory gpu storage)
          in overall = js_round (weighted_sum c m g s)
             \<and> 0 \<le> overall \<and> overall \<le> 100
             \<and> round (exact_weighted_sum c m g s - 407 * eps) \<le> overall
             \<and> overall \<le> round (exact_weighted_sum c m g s + 407 * eps)
             \<and> \<bar>overall - spec_overallScore c m g s\<bar> \<le> 1)
         \<and> calculatePerformanceScores ex_cpu ex_memory (Some ex_gpu) (Some ex_storage)
             = \<lparr>overallScore = 88, cpuScore = 78, memoryScore = 100, gpuScore = 92,
                storageScore = 85\<rparr>"
proof -
  note r = subscore_ranges[OF assms] calc_storageScore_range[of storage]
  note b = overall_bounds[OF r]
  have "0 \<le> js_round (weighted_sum (calc_cpuScore cpu) (calc_memoryScore memory)
                          (calc_gpuScore gpu) (calc_storageScore storage))"
    using b(3) by simp
  with b show ?thesis
    unfolding Let_def overallScore_unfold by (simp only: scores_example simp_thms)
qed

theorem overallScore_rounded_double_sum_witness:
  "nonneg_facts half_cpu half_memory (Some half_gpu)
   \<and> overallScore (calculatePerformanceScores half_cpu half_memory (Some half_gpu)
                     (Some half_storage)) = 59
   \<and> round (exact_weighted_sum 66 40 68 60 - 407 * eps) = 59
   \<and> round (exact_weighted_sum 66 40 68 60 + 407 * eps) = 60"
proof -
  have n: "nonneg_facts half_cpu half_memory (Some half_gpu)"
    by (simp add: nonneg_facts_def facts_defs)
  have "(119 / 2 - 407 * eps :: rat) + 1 / 2 = of_int 59 + (1 - 407 * eps)"
    "(119 / 2 + 407 * eps :: rat) + 1 / 2 = of_int 60 + 407 * eps"
    by simp_all
  then have r: "round (119 / 2 - 407 * eps :: rat) = 59" "round (119 / 2 + 407 * eps :: rat) = 60"
    unfolding round_def using eps_bounds by linarith+
  show ?thesis
    using overallScore_rounded_double_sum[OF n, of "Some half_storage"] n r
    by (simp add: Let_def subscores_half scores_half exact_weighted_sum_def)
qed

text \<open>
  The claim as stated, with the weighted sum taken exactly, fails: 4 logical cores at
  4.0 GHz with 12 MB of cache, 4 GB of memory at 2400 MHz, a dedicated GPU with 2 GB and
  a hard disk have the sub-scores 66, 40, 68, 60, in the code and by the exact formulas;
  their exact weighted sum is 59.5, rounded half up to 60; the sum of the doubles is just
  below 59.5 and the code returns 59.
\<close>

theorem overallScore_half_up_counterexample:
  "calc_cpuScore half_cpu = 66 \<and> calc_memoryScore half_memory = 40
   \<and> calc_gpuScore (Some half_gpu) = 68 \<and> calc_storageScore (Some half_storage) = 60
   \<and> spec_cpuScore half_cpu = 66 \<and> spec_memoryScore half_memory = 40
   \<and> spec_gpuScore half_gpu = 68 \<and> spec_storageScore half_storage = 60
   \<and> exact_weighted_sum 66 40 68 60 = 119 / 2
   \<and> spec_overallScore 66 40 68 60 = 60
   \<and> weighted_sum 66 40 68 60 = 8373880557142015 / 140737488355328
   \<and> overallScore (calculatePerformanceScores half_cpu half_memory (Some half_gpu)
                     (Some half_storage)) = 59"
proof -
  have r: "round (119 / 2 :: rat) = 60" unfolding round_def by linarith
  have sp: "spec_cpuScore half_cpu = 66" "spec_memoryScore half_memory = 40"
    "spec_gpuScore half_gpu = 68" "spec_storageScore half_storage = 60"
    by (simp_all add: spec_cpuScore_def spec_memoryScore_def spec_gpuScore_def
          spec_storageScore_def facts_defs)
  show ?thesis
    using r by (simp add: sp subscores_half scores_half exact_weighted_sum_def
          spec_overallScore_def clamp_score_def weighted_sum_def ev)
qed

text \<open>
  C2: the tier is a function of the overall score with breakpoints 80/60/40, each boundary
  value belonging to the higher tier: HIGH exactly from 80 up, MEDIUM exactly on 60..79, LOW
  exactly on 40..59, VERY_LOW exactly below 40; so 80 is HIGH, 79 and 60 are MEDIUM, 59 and 40
  are LOW and 39 is VERY_LOW.
\<close>

theorem tier_breakpoints:
  "(calculateHardwareTier s = HIGH) = (80 \<le> s)
   \<and> (calculateHardwareTier s = MEDIUM) = (60 \<le> s \<and> s < 80)
   \<and> (calculateHardwareTier s = LOW) = (40 \<le> s \<and> s < 60)
   \<and> (calculateHardwareTier s = VERY_LOW) = (s < 40)
   \<and> calculateHardwareTier 80 = HIGH \<and> calculateHardwareTier 79 = MEDIUM
   \<and> calculateHardwareTier 60 = MEDIUM \<and> calculateHardwareTier 59 = LOW
   \<and> calculateHardwareTier 40 = LOW \<and> calculateHardwareTier 39 = VERY_LOW"
  by (simp add: calculateHardwareTier_def)

text \<open>
  C3 (as amended): the VRAM of a controller is resolved in this order: (1) the table of known
  models, by substring match on the lower-cased model (its last two rules also ask for an
  nvidia vendor); (2) else the reported VRAM, if above 512 MB, converted to GB by rounding;
  (3) else the reported total memory under the same floor; (4) else 0.  A table match
  outranks both sensor values: a model containing "3060" with vendor NVIDIA and a reported
  VRAM of 16 resolves to 6.  The integrated-vendor test comes after the sensor values and
  has no effect on the result.
\<close>

theorem getGPUVRAM_code_order:
  "getGPUVRAM gpu = code_order_GPUVRAM gpu
   \<and> (table_lookup (toLowerCase (or_empty (c_model gpu)))
                    (toLowerCase (or_empty (c_vendor gpu))) = Some gb
        \<longrightarrow> getGPUVRAM gpu = gb)
   \<and> (table_lookup (toLowerCase (or_empty (c_model gpu)))
                    (toLowerCase (or_empty (c_vendor gpu))) = None
        \<longrightarrow> getGPUVRAM gpu = sensor_fallback gpu)
   \<and> getGPUVRAM \<lparr>c_model = Some ''NVIDIA GeForce RTX 3060'', c_vendor = Some ''NVIDIA'',
                   c_vram = Some 16, c_memoryTotal = None\<rparr> = 6"
proof -
  have "getGPUVRAM \<lparr>c_model = Some ''NVIDIA GeForce RTX 3060'', c_vendor = Some ''NVIDIA'',
                     c_vram = Some 16, c_memoryTotal = None\<rparr> = 6"
    by (simp add: getGPUVRAM_table_then_sensor or_empty_def lower_rtx_3060 table_lookup_chain)
  then show ?thesis
    by (simp add: getGPUVRAM_table_then_sensor code_order_GPUVRAM_def)
qed

theorem getGPUVRAM_code_order_witness:
  "table_lookup (toLowerCase ''Intel UHD Graphics 630'') (toLowerCase ''Intel'') = None
   \<and> getGPUVRAM \<lparr>c_model = Some ''Intel UHD Graphics 630'', c_vendor = Some ''Intel'',
                   c_vram = Some 1024, c_memoryTotal = None\<rparr> = 1
   \<and> table_lookup (toLowerCase ''NVIDIA GeForce RTX 3060'') (toLowerCase ''NVIDIA'') = Some 6
   \<and> getGPUVRAM \<lparr>c_model = Some ''NVIDIA GeForce RTX 3060'', c_vendor = Some ''NVIDIA'',
                   c_vram = Some 1024, c_memoryTotal = None\<rparr> = 6"
  using getGPUVRAM_code_order
          [of "\<lparr>c_model = Some ''Intel UHD Graphics 630'', c_vendor = Some ''Intel'',
                c_vram = Some 1024, c_memoryTotal = None\<rparr>" 0]
        getGPUVRAM_code_order
          [of "\<lparr>c_model = Some ''NVIDIA GeForce RTX 3060'', c_vendor = Some ''NVIDIA'',
                c_vram = Some 1024, c_memoryTotal = None\<rparr>" 6]
  by (simp add: or_empty_def lower_intel_uhd lower_rtx_3060 table_lookup_chain
        sensor_fallback_def mb_to_gb_1024)

text \<open>
  The order as the claim states it fails: for an Intel controller that matches no table
  rule and reports 1024 MB the code returns 1, where rule (2) of the claim returns 0.
\<close>

theorem getGPUVRAM_integrated_vendor_counterexample:
  "getGPUVRAM \<lparr>c_model = Some ''Intel UHD Graphics 630'', c_vendor = Some ''Intel'',
                c_vram = Some 1024, c_memoryTotal = None\<rparr> = 1
   \<and> spec_getGPUVRAM \<lparr>c_model = Some ''Intel UHD Graphics 630'', c_vendor = Some ''Intel'',
                      c_vram = Some 1024, c_memoryTotal = None\<rparr> = 0"
  by (simp add: getGPUVRAM_table_then_sensor spec_getGPUVRAM_def or_empty_def lower_intel_uhd
        table_lookup_chain sensor_fallback_def mb_to_gb_1024 integrated_vendor_def)

text \<open>
  C4 (as amended): the GPU type is decided in this order: an absent or empty model is
  integrated, whatever the vendor; else the dedicated rules (b) nvidia, (c) amd, (d) arc,
  each as the claim states it; else a model with an Apple token (apple, m1, m2, m3) is
  apple_unified; else integrated.  The dedicated rules outrank the Apple rule, the Apple
  tokens are looked for in the model only, and a vendor nvidia yields dedicated when the
  model is non-empty and has no "integrated" in it.
\<close>

theorem determineGPUType_code_order:
  "determineGPUType model vendor = code_order_GPUType (or_empty model) (or_empty vendor)
   \<and> (or_empty model = [] \<longrightarrow> determineGPUType model vendor = integrated)
   \<and> (or_empty model \<noteq> []
        \<and> (nvidia_rule (toLowerCase (or_empty model)) (toLowerCase (or_empty vendor))
           \<or> amd_rule (toLowerCase (or_empty model)) (toLowerCase (or_empty vendor))
           \<or> arc_rule (toLowerCase (or_empty model)))
        \<longrightarrow> determineGPUType model vendor = dedicated)
   \<and> (or_empty model \<noteq> [] \<and> str_includes (toLowerCase (or_empty vendor)) ''nvidia''
        \<and> \<not> str_includes (toLowerCase (or_empty model)) ''integrated''
        \<longrightarrow> determineGPUType model vendor = dedicated)"
  by (simp add: determineGPUType_def code_order_GPUType_def nvidia_rule_def amd_rule_def
        arc_rule_def apple_tokens_def Let_def)

theorem determineGPUType_code_order_witness:
  "determineGPUType (Some ''Radeon Pro Vega 20'') (Some ''Apple'') = dedicated
   \<and> determineGPUType (Some ''T1000'') (Some ''NVIDIA'') = dedicated
   \<and> determineGPUType (Some '''') (Some ''NVIDIA'') = integrated
   \<and> determineGPUType None (Some ''NVIDIA'') = integrated"
proof -
  have l: "toLowerCase ''Radeon Pro Vega 20'' = ''radeon pro vega 20''"
    "toLowerCase ''Apple'' = ''apple''" "toLowerCase ''T1000'' = ''t1000''"
    "toLowerCase ''NVIDIA'' = ''nvidia''"
    by code_simp+
  show ?thesis
    using determineGPUType_code_order[of "Some ''Radeon Pro Vega 20''" "Some ''Apple''"]
      determineGPUType_code_order[of "Some ''T1000''" "Some ''NVIDIA''"]
      determineGPUType_code_order[of "Some ''''" "Some ''NVIDIA''"]
      determineGPUType_code_order[of None "Some ''NVIDIA''"]
    by (simp add: or_empty_def l code_order_GPUType_def nvidia_rule_def amd_rule_def
          arc_rule_def apple_tokens_def)
qed

text \<open>
  The order as the claim states it fails in three ways: a vendor nvidia with an empty model
  is integrated, not dedicated; a dedicated rule wins over an Apple token in the model (the
  "m2" of a Quadro M2000); an Apple vendor alone does not make the GPU apple_unified.
\<close>

theorem determineGPUType_apple_first_counterexample:
  "determineGPUType (Some '''') (Some ''nvidia'') = integrated
   \<and> spec_determineGPUType '''' ''nvidia'' = dedicated
   \<and> determineGPUType (Some ''Quadro M2000'') (Some ''NVIDIA'') = dedicated
   \<and> spec_determineGPUType ''Quadro M2000'' ''NVIDIA'' = apple_unified
   \<and> determineGPUType (Some ''Display'') (Some ''Apple'') = integrated
   \<and> spec_determineGPUType ''Display'' ''Apple'' = apple_unified"
  by code_simp

text \<open>
  C5 (as amended): in every state reached from the new server, a subscriber attaching does
  not change the state of the loop, also when it is the first one.  The loop goes from IDLE to ACTIVE when a \<^verbatim>\<open>start_realtime\<close> message
  is handled, which creates the one timer, of period 2000 ms.  When the last subscriber
  detaches, the loop is IDLE and no timer is left; from then on, as long as no
  \<^verbatim>\<open>start_realtime\<close> message is handled, the loop stays IDLE, no timer fires, the polls in
  flight do not grow in number, and if no poll was in flight at the detach, no sample is
  delivered to anyone.
\<close>

theorem broadcast_lifecycle:
  fixes es0 es :: "event list" and ws :: nat
  defines "s \<equiv> run new_ApiServer es0"
  shows "loop_state_of (step s (Connection ws)) = loop_state_of s
    \<and> timers (step s (Connection ws)) = timers s
    \<and> (loop_state_of s = IDLE \<longrightarrow>
          loop_state_of (step s (Message ws start_realtime)) = ACTIVE
          \<and> timers (step s (Message ws start_realtime)) = [(next_timer s, 2000)])
    \<and> (clients s = [ws] \<longrightarrow>
          loop_state_of (step s (Close ws)) = IDLE
          \<and> timers (step s (Close ws)) = []
          \<and> clients (step s (Close ws)) = []
          \<and> (\<not> list_ex starts es \<longrightarrow>
                loop_state_of (run (step s (Close ws)) es) = IDLE
                \<and> timers (run (step s (Close ws)) es) = []
                \<and> in_flight (run (step s (Close ws)) es) \<le> in_flight s
                \<and> (in_flight s = 0 \<longrightarrow>
                      delivered (run (step s (Close ws)) es) = delivered s)))"
proof -
  have o: "one_timer s"
    unfolding s_def by (intro one_timer_run one_timer_new)
  have a: "loop_state_of (step s (Connection ws)) = loop_state_of s
    \<and> timers (step s (Connection ws)) = timers s"
    by (simp add: loop_state_of_def on_connection_def)
  have b: "loop_state_of s = IDLE \<longrightarrow>
          loop_state_of (step s (Message ws start_realtime)) = ACTIVE
          \<and> timers (step s (Message ws start_realtime)) = [(next_timer s, 2000)]"
    using o
    by (auto simp: loop_state_of_def one_timer_def handleWebSocketMessage_def
          startRealtimeUpdates_def setInterval_def split: option.splits)
  have c: "loop_state_of (step s (Close ws)) = IDLE
          \<and> timers (step s (Close ws)) = []
          \<and> clients (step s (Close ws)) = []
          \<and> (\<not> list_ex starts es \<longrightarrow>
                loop_state_of (run (step s (Close ws)) es) = IDLE
                \<and> timers (run (step s (Close ws)) es) = []
                \<and> in_flight (run (step s (Close ws)) es) \<le> in_flight s
                \<and> (in_flight s = 0 \<longrightarrow>
                      delivered (run (step s (Close ws)) es) = delivered s))"
    if cl: "clients s = [ws]"
  proof -
    note lc = last_close[OF o cl]
    from lc have t: "timers (on_close ws s) = []" and r: "realtimeInterval (on_close ws s) = None"
      by auto
    have "\<not> list_ex starts es \<Longrightarrow>
        timers (run (on_close ws s) es) = [] \<and> realtimeInterval (run (on_close ws s) es) = None
        \<and> in_flight (run (on_close ws s) es) \<le> in_flight (on_close ws s)
        \<and> (in_flight (on_close ws s) = 0 \<longrightarrow>
              delivered (run (on_close ws s) es) = delivered (on_close ws s))"
      by (rule idle_run[OF t r])
    with lc show ?thesis by (auto simp: loop_state_of_def)
  qed
  from a b c show ?thesis by blast
qed

theorem broadcast_lifecycle_witness:
  "clients (run new_ApiServer [Connection 3, Message 3 start_realtime]) = [3]
   \<and> loop_state_of (run new_ApiServer [Connection 3]) = IDLE
   \<and> loop_state_of (run new_ApiServer [Connection 3, Message 3 start_realtime]) = ACTIVE
   \<and> timers (run new_ApiServer [Connection 3, Message 3 start_realtime]) = [(0, 2000)]
   \<and> loop_state_of (run new_ApiServer [Connection 3, Message 3 start_realtime, Close 3]) = IDLE
   \<and> \<not> list_ex starts [TimerFires 0, Connection 4, StatsResolved (Some 7)]
   \<and> delivered (run (step (run new_ApiServer [Connection 3, Message 3 start_realtime]) (Close 3))
        [TimerFires 0, Connection 4, StatsResolved (Some 7)]) = []"
proof -
  have s: "run new_ApiServer [Connection 3, Message 3 start_realtime] =
    \<lparr>clients = [3], open_sockets = {3}, realtimeInterval = Some 0, timers = [(0, 2000)],
     next_timer = 1, in_flight = 0, delivered = []\<rparr>"
    by (simp add: run_def new_ApiServer_def on_connection_def handleWebSocketMessage_def
          startRealtimeUpdates_def setInterval_def)
  have s0: "run new_ApiServer [Connection 3] =
    \<lparr>clients = [3], open_sockets = {3}, realtimeInterval = None, timers = [],
     next_timer = 0, in_flight = 0, delivered = []\<rparr>"
    by (simp add: run_def new_ApiServer_def on_connection_def)
  have n: "\<not> list_ex starts [TimerFires 0, Connection 4, StatsResolved (Some 7)]"
    by (simp add: starts_def)
  have r: "run new_ApiServer [Connection 3, Message 3 start_realtime, Close 3]
     = step (run new_ApiServer [Connection 3, Message 3 start_realtime]) (Close 3)"
    "run new_ApiServer [Connection 3, Message 3 start_realtime]
     = step (run new_ApiServer [Connection 3]) (Message 3 start_realtime)"
    by (simp_all add: run_def)
  show ?thesis
    using broadcast_lifecycle[of "[Connection 3, Message 3 start_realtime]" 3
            "[TimerFires 0, Connection 4, StatsResolved (Some 7)]"]
      broadcast_lifecycle[of "[Connection 3]" 3 "[]"] n
    unfolding r(1) by (simp add: s s0 loop_state_of_def)
qed

text \<open>
  The claim as stated fails: when the first subscriber attaches, the loop stays IDLE, no
  timer is created and no sample is delivered.
\<close>

theorem attach_does_not_start_counterexample:
  "clients new_ApiServer = []
   \<and> clients (step new_ApiServer (Connection 3)) = [3]
   \<and> loop_state_of new_ApiServer = IDLE
   \<and> loop_state_of (step new_ApiServer (Connection 3)) = IDLE
   \<and> timers (step new_ApiServer (Connection 3)) = []
   \<and> delivered (run new_ApiServer [Connection 3, TimerFires 0, StatsResolved (Some 7)]) = []"
  by (simp add: run_def new_ApiServer_def on_connection_def loop_state_of_def)

text \<open>
  C6: starting the loop while it is ACTIVE changes nothing and stopping it while it is IDLE
  changes nothing; in every state reached from the new server the only active timer is the
  one the server holds, of period 2000 ms, so there is at most one; and after any number
  (at least one) of starts in a row there is exactly one timer, of period 2000 ms.
\<close>

theorem realtime_loop_single_timer:
  "(realtimeInterval s \<noteq> None \<longrightarrow> startRealtimeUpdates s = s)
   \<and> (realtimeInterval s = None \<longrightarrow> stopRealtimeUpdates s = s)
   \<and> one_timer (run new_ApiServer es)
   \<and> length (timers (run new_ApiServer es)) \<le> 1
   \<and> (\<exists>t. timers ((startRealtimeUpdates ^^ Suc n) (run new_ApiServer es)) = [(t, 2000)])"
proof -
  have o: "one_timer (run new_ApiServer es)"
    by (intro one_timer_run one_timer_new)
  then have l: "length (timers (run new_ApiServer es)) \<le> 1"
    by (simp add: one_timer_def split: option.splits)
  from start_funpow[OF o, of n] o l show ?thesis
    by (auto simp: startRealtimeUpdates_def stopRealtimeUpdates_def)
qed

theorem realtime_loop_single_timer_witness:
  "realtimeInterval (run new_ApiServer [Connection 3, Message 3 start_realtime]) \<noteq> None
   \<and> startRealtimeUpdates (run new_ApiServer [Connection 3, Message 3 start_realtime])
       = run new_ApiServer [Connection 3, Message 3 start_realtime]
   \<and> realtimeInterval new_ApiServer = None
   \<and> stopRealtimeUpdates new_ApiServer = new_ApiServer
   \<and> timers (run new_ApiServer
                [Connection 3, Message 3 start_realtime, Message 3 start_realtime])
       = [(0, 2000)]"
proof -
  have s: "run new_ApiServer [Connection 3, Message 3 start_realtime] =
    \<lparr>clients = [3], open_sockets = {3}, realtimeInterval = Some 0, timers = [(0, 2000)],
     next_timer = 1, in_flight = 0, delivered = []\<rparr>"
    by (simp add: run_def new_ApiServer_def on_connection_def handleWebSocketMessage_def
          startRealtimeUpdates_def setInterval_def)
  have r: "run new_ApiServer [Connection 3, Message 3 start_realtime, Message 3 start_realtime]
     = startRealtimeUpdates (run new_ApiServer [Connection 3, Message 3 start_realtime])"
    by (simp add: run_def handleWebSocketMessage_def)
  have n: "realtimeInterval new_ApiServer = None" by (simp add: new_ApiServer_def)
  show ?thesis
    using realtime_loop_single_timer
            [of "run new_ApiServer [Connection 3, Message 3 start_realtime]" "[]" 0]
      realtime_loop_single_timer[of new_ApiServer "[]" 0] n
    unfolding r by (simp add: s)
qed

text \<open>
  C7: when a query that the analysis waits for rejects, \<^verbatim>\<open>detectHardware\<close> fails with an
  error whose message is "Hardware detection failed: " followed by the message of a query
  that rejected.  Of the queries that run at the same time it is the one whose rejection
  arrives first, all that settled before it having fulfilled; when all of these fulfil, it
  is the first of the queries that follow, in the order in which they are sent.  The
  detector is returned as it was: the cached analysis and its time stamp are those of
  before the call.  Whatever the answers are, a call either stores the complete analysis
  that it returns or leaves the detector as it was.
\<close>

theorem detectHardware_failure_keeps_cache:
  assumes "rejections env \<noteq> []"
  shows "(\<exists>e\<in>set (rejections env).
            detectHardware this env
              = (Inl (Error (''Hardware detection failed: '' @ message e)), this))
    \<and> (\<forall>pre q post e.
          arrival env = pre @ q # post \<and> rejection_of env q = Some e
          \<and> (\<forall>p\<in>set pre. rejection_of env p = None)
          \<longrightarrow> detectHardware this env
                = (Inl (Error (''Hardware detection failed: '' @ message e)), this))
    \<and> (parallel_rejections env = []
        \<longrightarrow> detectHardware this env
              = (Inl (Error (''Hardware detection failed: ''
                               @ message (hd (sequential_rejections env)))), this))
    \<and> lastAnalysis (snd (detectHardware this env)) = lastAnalysis this
    \<and> analysisTimestamp (snd (detectHardware this env)) = analysisTimestamp this
    \<and> ((\<exists>a. detectHardware this other
               = (Inr a, this\<lparr>lastAnalysis := Some a,
                             analysisTimestamp := Some (clock_stored other)\<rparr>))
        \<or> (\<exists>e. detectHardware this other = (Inl e, this)))"
proof -
  obtain e where e: "e \<in> set (rejections env)" "try_detect env = Inl e"
    using try_detect_rejection[OF assms] by blast
  have 1: "\<exists>e\<in>set (rejections env).
            detectHardware this env
              = (Inl (Error (''Hardware detection failed: '' @ message e)), this)"
    using e by (auto simp: detectHardware_def)
  have 2: "detectHardware this env
             = (Inl (Error (''Hardware detection failed: '' @ message e')), this)"
    if "arrival env = pre @ q # post" "rejection_of env q = Some e'"
      "\<forall>p\<in>set pre. rejection_of env p = None" for pre q post e'
  proof -
    have "first_rejection env (arrival env @ promise_array) = Some e'"
      using first_rejection_arrives_first[OF that(2,3), of "post @ promise_array"] that(1)
      by simp
    then have "try_detect env = Inl e'"
      using Promise_all_rejects try_detect_parallel_rejection by blast
    then show ?thesis by (simp add: detectHardware_def)
  qed
  have 3: "detectHardware this env
             = (Inl (Error (''Hardware detection failed: ''
                              @ message (hd (sequential_rejections env)))), this)"
    if p: "parallel_rejections env = []"
  proof -
    obtain e' es where s: "sequential_rejections env = e' # es"
      using assms p by (cases "sequential_rejections env") (auto simp: rejections_def)
    show ?thesis
      using try_detect_sequential_rejection[OF p s] by (simp add: detectHardware_def s)
  qed
  have 4: "lastAnalysis (snd (detectHardware this env)) = lastAnalysis this"
    "analysisTimestamp (snd (detectHardware this env)) = analysisTimestamp this"
    using e(2) by (simp_all add: detectHardware_def)
  show ?thesis using 1 2 3 4 detectHardware_cases[of this other] by blast
qed

theorem detectHardware_failure_keeps_cache_witness:
  "rejections failing_inventory \<noteq> []
   \<and> detectHardware sample_detector failing_inventory
       = (Inl (Error ''Hardware detection failed: no battery information''), sample_detector)
   \<and> detectHardware sample_detector (failing_inventory\<lparr>arrival := promise_array\<rparr>)
       = (Inl (Error ''Hardware detection failed: graphics query timed out''), sample_detector)
   \<and> detectHardware sample_detector
         (sample_inventory\<lparr>q_cpuTemperature := Inl (Error ''no temperature sensor'')\<rparr>)
       = (Inl (Error ''Hardware detection failed: no temperature sensor''), sample_detector)
   \<and> lastAnalysis sample_detector \<noteq> None"
proof -
  let ?f = "failing_inventory\<lparr>arrival := promise_array\<rparr>"
  let ?t = "sample_inventory\<lparr>q_cpuTemperature := Inl (Error ''no temperature sensor'')\<rparr>"
  have a: "arrival failing_inventory
             = [si_osInfo, si_system, si_cpu, si_mem] @ si_battery
               # [si_networkInterfaces, si_diskLayout, si_graphics]"
    "arrival ?f = [si_cpu, si_mem] @ si_graphics
                  # [si_osInfo, si_system, si_diskLayout, si_networkInterfaces, si_battery]"
    by (simp_all add: failing_inventory_def sample_inventory_def promise_array_def)
  have r: "rejection_of failing_inventory si_battery = Some (Error ''no battery information'')"
    "\<forall>p\<in>set [si_osInfo, si_system, si_cpu, si_mem]. rejection_of failing_inventory p = None"
    "rejection_of ?f si_graphics = Some (Error ''graphics query timed out'')"
    "\<forall>p\<in>set [si_cpu, si_mem]. rejection_of ?f p = None"
    by (simp_all add: failing_inventory_def sample_inventory_def rejection_of_def rejection_def)
  have n: "rejections failing_inventory \<noteq> []" "rejections ?f \<noteq> []" "rejections ?t \<noteq> []"
    "parallel_rejections ?t = []"
    "sequential_rejections ?t = [Error ''no temperature sensor'']"
    by (simp_all add: rejections_def parallel_rejections_def sequential_rejections_def
          failing_inventory_def sample_inventory_def error_of_def)
  have 1: "detectHardware sample_detector failing_inventory
       = (Inl (Error ''Hardware detection failed: no battery information''), sample_detector)"
    using detectHardware_failure_keeps_cache[OF n(1), of sample_detector sample_inventory,
            THEN conjunct2, THEN conjunct1, rule_format,
            of "[si_osInfo, si_system, si_cpu, si_mem]" si_battery
               "[si_networkInterfaces, si_diskLayout, si_graphics]"
               "Error ''no battery information''"] a(1) r(1,2)
    by simp
  have 2: "detectHardware sample_detector ?f
       = (Inl (Error ''Hardware detection failed: graphics query timed out''), sample_detector)"
    using detectHardware_failure_keeps_cache[OF n(2), of sample_detector sample_inventory,
            THEN conjunct2, THEN conjunct1, rule_format,
            of "[si_cpu, si_mem]" si_graphics
               "[si_osInfo, si_system, si_diskLayout, si_networkInterfaces, si_battery]"
               "Error ''graphics query timed out''"] a(2) r(3,4)
    by simp
  have 3: "detectHardware sample_detector ?t
       = (Inl (Error ''Hardware detection failed: no temperature sensor''), sample_detector)"
    using detectHardware_failure_keeps_cache[OF n(3), of sample_detector sample_inventory,
            THEN conjunct2, THEN conjunct2, THEN conjunct1] n(4,5)
    by simp
  show ?thesis using 1 2 3 n(1) sample_detector_cached by auto
qed

text \<open>
  C8: the fingerprint is the first 16 characters of the base64 encoding of the canonical
  string: logical cores, total memory in GB, the model of the primary GPU (the first of the
  sorted list) or \<open>integrated\<close> when there is no GPU, and the platform, joined by \<open>-\<close>.
  The encoding is reversible (injective on strings).  The fingerprint is a function of these
  four facts: two sets of facts that agree on them have the same fingerprint.  The analysis
  that \<^verbatim>\<open>detectHardware\<close> returns carries this fingerprint of its own facts.
\<close>

theorem fingerprint_canonical_encoding:
  "hardwareFingerprint_of cpu memory (gpuInfo_of controllers) os
     = take 16 (base64 (Buffer_from
         (canonical_string (logicalCores cpu) (totalMemoryGB memory)
            (map_option gpuModel (first_or_none (gpuInfo_of controllers))) os)))
   \<and> (first_or_none (gpuInfo_of controllers) = None) = (controllers = [])
   \<and> (base64 (Buffer_from s) = base64 (Buffer_from t) \<longrightarrow> s = t)
   \<and> (logicalCores cpu = logicalCores cpu' \<and> totalMemoryGB memory = totalMemoryGB memory'
        \<and> map_option gpuModel (first_or_none (gpuInfo_of controllers))
            = map_option gpuModel (first_or_none (gpuInfo_of controllers'))
        \<and> os = os'
        \<longrightarrow> hardwareFingerprint_of cpu memory (gpuInfo_of controllers) os
            = hardwareFingerprint_of cpu' memory' (gpuInfo_of controllers') os')
   \<and> (try_detect env = Inr a
        \<longrightarrow> (\<exists>cs. q_graphics env = Inr cs
                 \<and> hardwareFingerprint a
                     = hardwareFingerprint_of (spec_cpu a) (spec_memory a) (gpuInfo_of cs)
                         (spec_os a)))"
proof -
  have inj: "base64 (Buffer_from s) = base64 (Buffer_from t) \<longrightarrow> s = t"
    using base64_inj[OF Buffer_from_bytes Buffer_from_bytes, of s t] Buffer_from_inj by blast
  have d: "try_detect env = Inr a
        \<longrightarrow> (\<exists>cs. q_graphics env = Inr cs
                 \<and> hardwareFingerprint a
                     = hardwareFingerprint_of (spec_cpu a) (spec_memory a) (gpuInfo_of cs)
                         (spec_os a))"
    using try_detect_InrD[of env a] build_analysis_fingerprint by blast
  show ?thesis
    using inj d by (simp add: hardwareFingerprint_of_def fingerprintData_canonical first_gpu_None)
qed

theorem fingerprint_canonical_encoding_witness:
  "(\<exists>a. try_detect sample_inventory = Inr a \<and> hardwareFingerprint a = ''OC0zMi1OVklESUEg'')
   \<and> hardwareFingerprint_of \<lparr>logicalCores = 4, baseFrequencyGHz = 2, cacheSizeMB = 8\<rparr>
        \<lparr>totalMemoryGB = 8, memorySpeedMHz = 2400\<rparr> (gpuInfo_of []) ''darwin''
       = ''NC04LWludGVncmF0''
   \<and> hardwareFingerprint_of ex_cpu ex_memory (gpuInfo_of []) ''darwin''
       = hardwareFingerprint_of (ex_cpu\<lparr>baseFrequencyGHz := 2\<rparr>) ex_memory (gpuInfo_of [])
           ''darwin''"
proof -
  let ?c = "\<lparr>c_model = Some ''NVIDIA GeForce RTX 3070'', c_vendor = Some ''NVIDIA'',
               c_vram = Some 8192, c_memoryTotal = None\<rparr>"
  let ?a = "build_analysis
            \<lparr>cores = 8, speed = Some 3, cache_l1d = js_num 262144, cache_l1i = js_num 262144,
              cache_l2 = js_num 4194304, cache_l3 = js_num 12058624\<rparr>
            34359738368 [?c]
            ''linux'' [\<lparr>disk_type = ''SSD'', disk_size = 549755813888\<rparr>] [Some 3200]
            (Inr [274877906944]) ''2024-05-01T10:00:00.000Z''"
  have f: "logicalCores (spec_cpu ?a) = 8" "totalMemoryGB (spec_memory ?a) = 32"
    "spec_os ?a = ''linux''"
    by (simp_all add: build_analysis_def Let_def cpuInfo_of_def memoryInfo_of_def bytes_to_GB_32)
  have m: "gpuModel (gpu_of ?c) = ''NVIDIA GeForce RTX 3070''"
    by (simp add: gpu_of_def or_string_def)
  have g: "q_graphics sample_inventory = Inr [?c]" by (simp add: sample_inventory_def)
  have 1: "hardwareFingerprint ?a = ''OC0zMi1OVklESUEg''"
    using fingerprint_canonical_encoding[of "spec_cpu ?a" "spec_memory ?a" "[?c]" "''linux''"
            "[]" "[]" "spec_cpu ?a" "spec_memory ?a" "[?c]" "''linux''" sample_inventory ?a]
    by (simp add: try_detect_sample g f m gpuInfo_of_single first_or_none_def
          canonical_string_def js_toString_examples base64_examples)
  have 2: "hardwareFingerprint_of \<lparr>logicalCores = 4, baseFrequencyGHz = 2, cacheSizeMB = 8\<rparr>
        \<lparr>totalMemoryGB = 8, memorySpeedMHz = 2400\<rparr> (gpuInfo_of []) ''darwin''
       = ''NC04LWludGVncmF0''"
    using fingerprint_canonical_encoding[of "\<lparr>logicalCores = 4, baseFrequencyGHz = 2, cacheSizeMB = 8\<rparr>"
        "\<lparr>totalMemoryGB = 8, memorySpeedMHz = 2400\<rparr>" "[]" "''darwin''" "[]" "[]"
        "\<lparr>logicalCores = 4, baseFrequencyGHz = 2, cacheSizeMB = 8\<rparr>"
        "\<lparr>totalMemoryGB = 8, memorySpeedMHz = 2400\<rparr>" "[]" "''darwin''" sample_inventory ?a]
    by (simp add: gpuInfo_of_def gpu_sort_def first_or_none_def canonical_string_def
          js_toString_examples base64_examples)
  have 3: "hardwareFingerprint_of ex_cpu ex_memory (gpuInfo_of []) ''darwin''
       = hardwareFingerprint_of (ex_cpu\<lparr>baseFrequencyGHz := 2\<rparr>) ex_memory (gpuInfo_of [])
           ''darwin''"
    using fingerprint_canonical_encoding[of ex_cpu ex_memory "[]" "''darwin''" "[]" "[]"
        "ex_cpu\<lparr>baseFrequencyGHz := 2\<rparr>" ex_memory "[]" "''darwin''" sample_inventory ?a,
        THEN conjunct2, THEN conjunct2, THEN conjunct2, THEN conjunct1]
    by simp
  from 1 2 3 show ?thesis by (simp add: try_detect_sample)
qed

text \<open>
  C9: for two GPU facts that differ in \<open>vramGB\<close> only, of type dedicated and with a
  non-negative \<open>vramGB\<close>, the larger \<open>vramGB\<close> has a GPU score that is at least the
  other one, unrounded and as returned, and a strictly greater one as long as its score is
  below the clamp at 100; the dedicated GPU score is min(100, 60 + vramGB * 4), the double
  operations being exact here.
\<close>

theorem dedicated_gpuScore_monotone:
  assumes "gpuType g = dedicated" "0 \<le> vramGB g" "vramGB g \<le> v'"
  shows "calc_gpuScore (Some g) = of_int (min 100 (60 + vramGB g * 4))
    \<and> calc_gpuScore (Some g) \<le> calc_gpuScore (Some (g\<lparr>vramGB := v'\<rparr>))
    \<and> gpuScore (calculatePerformanceScores cpu memory (Some g) storage)
        \<le> gpuScore (calculatePerformanceScores cpu memory (Some (g\<lparr>vramGB := v'\<rparr>)) storage)
    \<and> (vramGB g < v' \<and> calc_gpuScore (Some (g\<lparr>vramGB := v'\<rparr>)) < 100
         \<longrightarrow> calc_gpuScore (Some g) < calc_gpuScore (Some (g\<lparr>vramGB := v'\<rparr>)))"
proof -
  have a: "calc_gpuScore (Some g) = of_int (min 100 (60 + vramGB g * 4))"
    using assms by (intro calc_gpuScore_dedicated)
  have b: "calc_gpuScore (Some (g\<lparr>vramGB := v'\<rparr>)) = of_int (min 100 (60 + v' * 4))"
    using assms calc_gpuScore_dedicated[of "g\<lparr>vramGB := v'\<rparr>"] by simp
  have le: "calc_gpuScore (Some g) \<le> calc_gpuScore (Some (g\<lparr>vramGB := v'\<rparr>))"
    unfolding a b of_int_le_iff using assms(3) by auto
  have "vramGB g < v' \<and> calc_gpuScore (Some (g\<lparr>vramGB := v'\<rparr>)) < 100
         \<longrightarrow> calc_gpuScore (Some g) < calc_gpuScore (Some (g\<lparr>vramGB := v'\<rparr>))"
    unfolding a b by auto
  with a le show ?thesis
    unfolding gpuScore_unfold using js_round_mono[OF le] by simp
qed

theorem dedicated_gpuScore_monotone_witness:
  "gpuType ex_gpu = dedicated \<and> (0::int) \<le> vramGB ex_gpu \<and> vramGB ex_gpu < 9
   \<and> calc_gpuScore (Some ex_gpu) = 92 \<and> calc_gpuScore (Some (ex_gpu\<lparr>vramGB := 9\<rparr>)) = 96
   \<and> calc_gpuScore (Some ex_gpu) < calc_gpuScore (Some (ex_gpu\<lparr>vramGB := 9\<rparr>))"
  using dedicated_gpuScore_monotone[of ex_gpu 9]
    dedicated_gpuScore_monotone[of "ex_gpu\<lparr>vramGB := 9\<rparr>" 9]
  by (simp add: ex_gpu_def)

text \<open>
  C10: for facts with non-negative fields the storage score is 60 or 85, the GPU score is at
  least 30 and the overall score is at least 15, so never 0; 15 is the score of the facts
  that are all zero, with no GPU and no drive; and the tier VERY_LOW is reached, by one core
  at 1 GHz with 1 GB of memory, no GPU and a hard disk, whose overall score is 21.
\<close>

theorem overallScore_at_least_15:
  assumes "nonneg_facts cpu memory gpu"
  shows "(calc_storageScore storage = 60 \<or> calc_storageScore storage = 85)
    \<and> (storageScore (calculatePerformanceScores cpu memory gpu storage) = 60
        \<or> storageScore (calculatePerformanceScores cpu memory gpu storage) = 85)
    \<and> 30 \<le> calc_gpuScore gpu
    \<and> 30 \<le> gpuScore (calculatePerformanceScores cpu memory gpu storage)
    \<and> 15 \<le> overallScore (calculatePerformanceScores cpu memory gpu storage)
    \<and> overallScore (calculatePerformanceScores cpu memory gpu storage) \<noteq> 0
    \<and> overallScore (calculatePerformanceScores zero_cpu zero_memory None None) = 15
    \<and> nonneg_facts weak_cpu weak_memory None
    \<and> calculateHardwareTier
          (overallScore (calculatePerformanceScores weak_cpu weak_memory None
             (Some half_storage))) = VERY_LOW"
proof -
  note r = subscore_ranges[OF assms] calc_storageScore_range[of storage]
  note b = overall_bounds[OF r]
  have s: "calc_storageScore storage = 60 \<or> calc_storageScore storage = 85"
    by (rule calc_storageScore_cases)
  then have s': "storageScore (calculatePerformanceScores cpu memory gpu storage) = 60
        \<or> storageScore (calculatePerformanceScores cpu memory gpu storage) = 85"
    using js_round_of_int[of 60] js_round_of_int[of 85]
    by (auto simp: calculatePerformanceScores_def Let_def)
  have "js_round 30 \<le> js_round (calc_gpuScore gpu)" using r(5) by (rule js_round_mono)
  then have g: "30 \<le> gpuScore (calculatePerformanceScores cpu memory gpu storage)"
    using js_round_of_int[of 30] by (simp add: gpuScore_unfold)
  have o: "15 \<le> overallScore (calculatePerformanceScores cpu memory gpu storage)"
    unfolding overallScore_unfold by (rule b(3))
  have w: "nonneg_facts weak_cpu weak_memory None"
    by (simp add: nonneg_facts_def facts_defs)
  show ?thesis
    using s s' r(5) g o w by (simp add: scores_zero scores_weak calculateHardwareTier_def)
qed

theorem overallScore_at_least_15_witness:
  "nonneg_facts zero_cpu zero_memory None
   \<and> overallScore (calculatePerformanceScores zero_cpu zero_memory None None) = 15
   \<and> calc_gpuScore None = 30 \<and> calc_storageScore None = 60"
proof -
  have n: "nonneg_facts zero_cpu zero_memory None"
    by (simp add: nonneg_facts_def facts_defs)
  show ?thesis
    using overallScore_at_least_15[OF n, of None] n
    by (simp add: calc_gpuScore_def calc_storageScore_def)
qed

end
